theory Spec2Isabelle
  imports Main "HOL-Library.Product_Lexorder" "HOL-Library.Multiset"
begin

section \<open>Python values and exceptions\<close>

text \<open>
  The three generators (\<^verbatim>\<open>model1.py\<close>, \<^verbatim>\<open>model2.py\<close>, \<^verbatim>\<open>model3.py\<close>) are Python
  methods that talk to a MongoDB collection through pymongo.  Python integers are
  unbounded, so they are \<^typ>\<open>int\<close>; an exception is a value of \<open>py_error\<close>.
  \<^item> \<open>ZeroDivisionError\<close>: raised by \<^verbatim>\<open>//\<close> and \<^verbatim>\<open>%\<close> on a zero divisor;
  \<^item> \<open>TypeError\<close>: raised by pymongo's \<^verbatim>\<open>insert_many\<close> on an empty document list
    (\<^verbatim>\<open>documents must be a non-empty list\<close>);
  \<^item> \<open>CollectionInvalid\<close>: raised by pymongo's \<^verbatim>\<open>create_collection\<close> when the
    collection exists already.
\<close>

datatype py_error = ZeroDivisionError | TypeError | CollectionInvalid

definition py_floordiv :: "int \<Rightarrow> int \<Rightarrow> py_error + int" where
  "py_floordiv a b = (if b = 0 then Inl ZeroDivisionError else Inr (a div b))"

definition py_mod :: "int \<Rightarrow> int \<Rightarrow> py_error + int" where
  "py_mod a b = (if b = 0 then Inl ZeroDivisionError else Inr (a mod b))"

text \<open>\<^verbatim>\<open>range(n)\<close> for a Python integer \<open>n\<close>: empty when \<open>n \<le> 0\<close>.\<close>

definition py_range :: "int \<Rightarrow> nat list" where
  "py_range n = [0..<nat n]"

section \<open>Dates\<close>

text \<open>
  A \<^verbatim>\<open>datetime.date\<close>.  The stored \<^verbatim>\<open>dateOfBirth\<close> is
  \<^verbatim>\<open>datetime.combine(dob, datetime.min.time())\<close>, the same day at 00:00:00, and the
  cutoff of Q3 is \<^verbatim>\<open>datetime(1988, 1, 1)\<close>, also at 00:00:00, so comparing the two
  instants is comparing the calendar days: the order of tuples
  \<open>(year, month, day)\<close>.
\<close>

record date =
  year :: int
  month :: int
  day :: int

definition date_lt :: "date \<Rightarrow> date \<Rightarrow> bool" where
  "date_lt a b = ((year a, month a, day a) < (year b, month b, day b))"

definition cutoff :: date where
  "cutoff = \<lparr>year = 1988, month = 1, day = 1\<rparr>"

text \<open>
  Lines 68-71 of \<^verbatim>\<open>model1.py\<close> (64-67 of \<^verbatim>\<open>model2.py\<close>, 62-65 of \<^verbatim>\<open>model3.py\<close>):
  \<^verbatim>\<open>datetime.now().year - dob.year - ((datetime.now().month, datetime.now().day) < (dob.month, dob.day))\<close>.
  The clock is read three times; \<open>now_y\<close>, \<open>now_m\<close> and \<open>now_d\<close> are the three
  readings, in the order the expression evaluates them.  The comparison is Python's
  order on tuples and the boolean counts as 0 or 1.
\<close>

definition derive_age :: "date \<Rightarrow> date \<Rightarrow> date \<Rightarrow> date \<Rightarrow> int" where
  "derive_age now_y now_m now_d dob =
     year now_y - year dob - of_bool ((month now_m, day now_d) < (month dob, day dob))"

section \<open>Documents\<close>

text \<open>
  The dictionaries the generators build have fixed keys, so they are records.  The
  person of \<^verbatim>\<open>model3.py\<close> (lines 66-74) has the seven keys of \<open>person\<close>;
  \<^verbatim>\<open>model1.py\<close> adds \<^verbatim>\<open>company_id\<close> and \<^verbatim>\<open>model2.py\<close> adds the embedded
  \<^verbatim>\<open>company\<close>.  The company has the five keys of \<open>company\<close>; \<^verbatim>\<open>model3.py\<close> adds
  the list \<^verbatim>\<open>employees\<close>.  The key \<^verbatim>\<open>email\<close> of a person is the field \<open>p_email\<close>
  (a company has a key \<^verbatim>\<open>email\<close> too), and the key \<^verbatim>\<open>company\<close> of a person of
  \<^verbatim>\<open>model2.py\<close> is the field \<open>embedded\<close> (\<open>company\<close> is the loop variable of the
  generators).  The key \<^verbatim>\<open>type\<close> is the discriminator of
  the document's shape: it is the constructor of \<open>doc1\<close> in the collection of
  \<^verbatim>\<open>model1.py\<close>, which holds both shapes, and it is constant in the other two.
\<close>

type_synonym oid = nat

record company =
  domain :: string
  email :: string
  name :: string
  url :: string
  vatNumber :: string

record person =
  age :: int
  companyEmail :: string
  dateOfBirth :: date
  p_email :: string
  firstName :: string
  fullName :: string
  sex :: string

record person1 = person +
  company_id :: oid

record person2 = person +
  embedded :: company

record company3 = company +
  employees :: "person list"

datatype doc1 = Company company | Person person1

fun doc_type1 :: "doc1 \<Rightarrow> string" where
  "doc_type1 (Company c) = ''company''"
| "doc_type1 (Person p) = ''person''"

definition doc_type2 :: "person2 \<Rightarrow> string" where
  "doc_type2 p = ''person''"

definition doc_type3 :: "company3 \<Rightarrow> string" where
  "doc_type3 c = ''company''"

section \<open>The providers of values\<close>

text \<open>
  Faker, \<^verbatim>\<open>random.choice\<close> and the clock are outside the program.  What they return
  is a parameter of the model: \<open>fake_company i\<close> holds the five values Faker returns
  while company \<open>i\<close> is built, and \<open>fake_person i j\<close> holds what the \<open>j\<close>-th iteration
  of the inner loop for company \<open>i\<close> receives: the date of birth, the three clock
  readings, four Faker strings and the outcome of \<^verbatim>\<open>random.choice(["M", "F"])\<close>.
\<close>

record draw =
  d_dob :: date
  d_now_year :: date
  d_now_month :: date
  d_now_day :: date
  d_company_email :: string
  d_email :: string
  d_first_name :: string
  d_name :: string
  d_choice :: bool

record provider =
  fake_company :: "nat \<Rightarrow> company"
  fake_person :: "nat \<Rightarrow> nat \<Rightarrow> draw"

definition new_person :: "draw \<Rightarrow> person" where
  "new_person d =
     \<lparr>age = derive_age (d_now_year d) (d_now_month d) (d_now_day d) (d_dob d),
      companyEmail = d_company_email d,
      dateOfBirth = d_dob d,
      p_email = d_email d,
      firstName = d_first_name d,
      fullName = d_name d,
      sex = (if d_choice d then ''M'' else ''F'')\<rparr>"

section \<open>The distribution of employees\<close>

text \<open>
  \<^verbatim>\<open>num_employees = employees_per_company + (1 if i < extra_employees else 0)\<close>,
  line 65 of \<^verbatim>\<open>model1.py\<close>, 61 of \<^verbatim>\<open>model2.py\<close>, 46 of \<^verbatim>\<open>model3.py\<close>; \<open>i\<close> is the
  index of \<^verbatim>\<open>enumerate\<close> or \<^verbatim>\<open>range\<close>.
\<close>

definition num_employees :: "int \<Rightarrow> int \<Rightarrow> nat \<Rightarrow> int" where
  "num_employees employees_per_company extra_employees i =
     employees_per_company + (if int i < extra_employees then 1 else 0)"

text \<open>
  The two assignments before the loop (lines 55-56, 52-53, 37-38) and the value of
  \<open>num_employees\<close> at every index of the loop, in the order of the loop.
\<close>

definition distribution :: "int \<Rightarrow> int \<Rightarrow> py_error + int list" where
  "distribution n_people n_companies =
     (case py_floordiv n_people n_companies of
        Inl e \<Rightarrow> Inl e
      | Inr employees_per_company \<Rightarrow>
          (case py_mod n_people n_companies of
             Inl e \<Rightarrow> Inl e
           | Inr extra_employees \<Rightarrow>
               Inr (map (num_employees employees_per_company extra_employees)
                        (py_range n_companies))))"

section \<open>The document store\<close>

text \<open>
  The database the pymongo client talks to: its collections by name, each a list of
  stored documents in insertion order with the \<^verbatim>\<open>_id\<close> the driver gave them; the
  next \<^verbatim>\<open>_id\<close> the driver will generate (an ObjectId is never issued twice); and the
  \<^verbatim>\<open>insert_many\<close> calls received so far, oldest first.  The store is taken to be
  reachable and to accept every non-empty batch.
\<close>

record 'd database =
  collections :: "string \<rightharpoonup> (oid \<times> 'd) list"
  next_oid :: oid
  insert_calls :: "'d list list"

abbreviation lab2_big_data :: string where
  "lab2_big_data \<equiv> ''lab2_big_data''"

definition drop_collection :: "string \<Rightarrow> 'd database \<Rightarrow> 'd database" where
  "drop_collection cname dbs = dbs\<lparr>collections := (collections dbs)(cname := None)\<rparr>"

definition create_collection ::
  "string \<Rightarrow> 'd database \<Rightarrow> (py_error \<times> 'd database) + 'd database" where
  "create_collection cname dbs =
     (if collections dbs cname \<noteq> None then Inl (CollectionInvalid, dbs)
      else Inr (dbs\<lparr>collections := (collections dbs)(cname \<mapsto> [])\<rparr>))"

text \<open>The documents of a collection; a collection that does not exist has none.\<close>

definition find_all :: "string \<Rightarrow> 'd database \<Rightarrow> (oid \<times> 'd) list" where
  "find_all cname dbs = (case collections dbs cname of None \<Rightarrow> [] | Some ds \<Rightarrow> ds)"

definition insert_many ::
  "string \<Rightarrow> 'd list \<Rightarrow> 'd database \<Rightarrow> (py_error \<times> 'd database) + (oid list \<times> 'd database)" where
  "insert_many cname documents dbs =
     (if documents = [] then Inl (TypeError, dbs)
      else
        (let inserted_ids = [next_oid dbs ..< next_oid dbs + length documents]
         in Inr (inserted_ids,
                 dbs\<lparr>collections :=
                       (collections dbs)(cname \<mapsto> find_all cname dbs @ zip inserted_ids documents),
                     next_oid := next_oid dbs + length documents,
                     insert_calls := insert_calls dbs @ [documents]\<rparr>)))"

text \<open>
  An update rewrites the documents of a collection in place; on a collection that does
  not exist it matches nothing.
\<close>

definition rewrite_collection ::
  "string \<Rightarrow> ((oid \<times> 'd) list \<Rightarrow> (oid \<times> 'd) list) \<Rightarrow> 'd database \<Rightarrow> 'd database" where
  "rewrite_collection cname f dbs =
     (case collections dbs cname of
        None \<Rightarrow> dbs
      | Some ds \<Rightarrow> dbs\<lparr>collections := (collections dbs)(cname \<mapsto> f ds)\<rparr>)"

section \<open>The batched writer\<close>

text \<open>
  A \<^verbatim>\<open>for\<close> loop whose body may raise: the first exception ends the loop.
\<close>

fun for_each :: "('a \<Rightarrow> 's \<Rightarrow> 'e + 's) \<Rightarrow> 'a list \<Rightarrow> 's \<Rightarrow> 'e + 's" where
  "for_each body [] s = Inr s"
| "for_each body (x # xs) s =
     (case body x s of Inl e \<Rightarrow> Inl e | Inr s' \<Rightarrow> for_each body xs s')"

text \<open>
  The state of the generation loop: the store and the list \<^verbatim>\<open>buffer\<close>.  The counter
  \<^verbatim>\<open>inserted_total\<close> only feeds the progress messages and is left out, as are the
  messages and the timers.
\<close>

record 'd writer =
  store :: "'d database"
  buffer :: "'d list"

text \<open>
  \<^verbatim>\<open>buffer.append(doc)\<close> followed by the batch check
  (\<^verbatim>\<open>if len(buffer) >= batch_size: collection.insert_many(buffer); buffer.clear()\<close>):
  lines 84-91 of \<^verbatim>\<open>model1.py\<close>, 79-86 of \<^verbatim>\<open>model2.py\<close>, 77-84 of \<^verbatim>\<open>model3.py\<close>.
\<close>

definition append_flush ::
  "int \<Rightarrow> 'd \<Rightarrow> 'd writer \<Rightarrow> (py_error \<times> 'd database) + 'd writer" where
  "append_flush batch_size document w =
     (let buf = buffer w @ [document]
      in if batch_size \<le> int (length buf) then
           (case insert_many lab2_big_data buf (store w) of
              Inl e \<Rightarrow> Inl e
            | Inr (ids, dbs) \<Rightarrow> Inr \<lparr>store = dbs, buffer = []\<rparr>)
         else Inr \<lparr>store = store w, buffer = buf\<rparr>)"

text \<open>
  \<^verbatim>\<open>if buffer: collection.insert_many(buffer)\<close> after the loop: lines 94-95 of
  \<^verbatim>\<open>model1.py\<close>, 88-89 of \<^verbatim>\<open>model2.py\<close>, 86-87 of \<^verbatim>\<open>model3.py\<close>.
\<close>

definition flush_rest :: "'d writer \<Rightarrow> (py_error \<times> 'd database) + 'd database" where
  "flush_rest w =
     (if buffer w \<noteq> [] then
        (case insert_many lab2_big_data (buffer w) (store w) of
           Inl e \<Rightarrow> Inl e
         | Inr (ids, dbs) \<Rightarrow> Inr dbs)
      else Inr (store w))"

section \<open>The load phase of the three generators\<close>

definition new_person1 :: "draw \<Rightarrow> oid \<Rightarrow> person1" where
  "new_person1 d cid = person.extend (new_person d) (person1.fields cid)"

definition new_person2 :: "draw \<Rightarrow> company \<Rightarrow> person2" where
  "new_person2 d c = person.extend (new_person d) (person2.fields c)"

definition new_company3 :: "company \<Rightarrow> person list \<Rightarrow> company3" where
  "new_company3 c ps = company.extend c (company3.fields ps)"

text \<open>
  \<^verbatim>\<open>Model1.data_generator\<close>, lines 25-97: drop and create the collection, build and
  insert the companies, then generate the persons of each company, each carrying the
  \<^verbatim>\<open>_id\<close> of its company, through the batched writer.
\<close>

definition load1 ::
  "provider \<Rightarrow> int \<Rightarrow> int \<Rightarrow> int \<Rightarrow> doc1 database \<Rightarrow> (py_error \<times> doc1 database) + doc1 database" where
  "load1 fake n_people n_companies batch_size db0 =
     (case create_collection lab2_big_data (drop_collection lab2_big_data db0) of
        Inl e \<Rightarrow> Inl e
      | Inr db1 \<Rightarrow>
     (let companies = map (\<lambda>i. Company (fake_company fake i)) (py_range n_companies) in
      case insert_many lab2_big_data companies db1 of
        Inl e \<Rightarrow> Inl e
      | Inr (company_ids, db2) \<Rightarrow>
     (case py_floordiv n_people n_companies of
        Inl e \<Rightarrow> Inl (e, db2)
      | Inr employees_per_company \<Rightarrow>
     (case py_mod n_people n_companies of
        Inl e \<Rightarrow> Inl (e, db2)
      | Inr extra_employees \<Rightarrow>
     (case for_each
             (\<lambda>(i, company_id).
                for_each
                  (\<lambda>j. append_flush batch_size
                          (Person (new_person1 (fake_person fake i j) company_id)))
                  (py_range (num_employees employees_per_company extra_employees i)))
             (enumerate 0 company_ids)
             \<lparr>store = db2, buffer = []\<rparr> of
        Inl e \<Rightarrow> Inl e
      | Inr w \<Rightarrow> flush_rest w)))))"

text \<open>
  \<^verbatim>\<open>Model2.data_generator\<close>, lines 27-91: the companies are only templates in memory;
  every person document embeds the template of its company.
\<close>

definition load2 ::
  "provider \<Rightarrow> int \<Rightarrow> int \<Rightarrow> int \<Rightarrow> person2 database \<Rightarrow> (py_error \<times> person2 database) + person2 database" where
  "load2 fake n_people n_companies batch_size db0 =
     (case create_collection lab2_big_data (drop_collection lab2_big_data db0) of
        Inl e \<Rightarrow> Inl e
      | Inr db1 \<Rightarrow>
     (let companies = map (fake_company fake) (py_range n_companies) in
      case py_floordiv n_people n_companies of
        Inl e \<Rightarrow> Inl (e, db1)
      | Inr employees_per_company \<Rightarrow>
     (case py_mod n_people n_companies of
        Inl e \<Rightarrow> Inl (e, db1)
      | Inr extra_employees \<Rightarrow>
     (case for_each
             (\<lambda>(i, company).
                for_each
                  (\<lambda>j. append_flush batch_size (new_person2 (fake_person fake i j) company))
                  (py_range (num_employees employees_per_company extra_employees i)))
             (enumerate 0 companies)
             \<lparr>store = db1, buffer = []\<rparr> of
        Inl e \<Rightarrow> Inl e
      | Inr w \<Rightarrow> flush_rest w))))"

text \<open>
  \<^verbatim>\<open>Model3.data_generator\<close>, lines 27-88: each company document is built with the
  list of its employees and goes through the batched writer as one document.
\<close>

definition load3 ::
  "provider \<Rightarrow> int \<Rightarrow> int \<Rightarrow> int \<Rightarrow> company3 database \<Rightarrow> (py_error \<times> company3 database) + company3 database" where
  "load3 fake n_people n_companies batch_size db0 =
     (case create_collection lab2_big_data (drop_collection lab2_big_data db0) of
        Inl e \<Rightarrow> Inl e
      | Inr db1 \<Rightarrow>
     (case py_floordiv n_people n_companies of
        Inl e \<Rightarrow> Inl (e, db1)
      | Inr employees_per_company \<Rightarrow>
     (case py_mod n_people n_companies of
        Inl e \<Rightarrow> Inl (e, db1)
      | Inr extra_employees \<Rightarrow>
     (case for_each
             (\<lambda>i. append_flush batch_size
                     (new_company3 (fake_company fake i)
                        (map (\<lambda>j. new_person (fake_person fake i j))
                             (py_range (num_employees employees_per_company extra_employees i)))))
             (py_range n_companies)
             \<lparr>store = db1, buffer = []\<rparr> of
        Inl e \<Rightarrow> Inl e
      | Inr w \<Rightarrow> flush_rest w))))"

section \<open>The four queries\<close>

text \<open>
  A query reads or rewrites the list of stored documents of the collection, in
  insertion order.  The previews printed after each query (\<^verbatim>\<open>limit(10)\<close>,
  \<^verbatim>\<open>tabulate\<close>) read the store and change nothing; they are left out.
\<close>

subsection \<open>Model 1: persons referencing companies\<close>

text \<open>Reading a key of a document of either shape; \<open>None\<close> when the key is absent.\<close>

fun key_company_id :: "doc1 \<Rightarrow> oid option" where
  "key_company_id (Person p) = Some (company_id p)"
| "key_company_id (Company c) = None"

fun key_name :: "doc1 \<Rightarrow> string option" where
  "key_name (Company c) = Some (name c)"
| "key_name (Person p) = None"

fun key_fullName :: "doc1 \<Rightarrow> string option" where
  "key_fullName (Person p) = Some (fullName p)"
| "key_fullName (Company c) = None"

text \<open>
  Q1, lines 110-126: \<^verbatim>\<open>$match\<close> the persons, \<^verbatim>\<open>$lookup\<close> the documents whose
  \<^verbatim>\<open>_id\<close> is the person's \<^verbatim>\<open>company_id\<close>, \<^verbatim>\<open>$unwind\<close> (one row for each document
  found, none when nothing was found), \<^verbatim>\<open>$project\<close> the full name and the name of
  the document found.
\<close>

definition Q1_1 :: "(oid \<times> doc1) list \<Rightarrow> (string option \<times> string option) list" where
  "Q1_1 coll =
     (let matched = filter (\<lambda>(pid, d). doc_type1 d = ''person'') coll;
          looked_up = map (\<lambda>(pid, d). (d, filter (\<lambda>(cid, c). Some cid = key_company_id d) coll)) matched;
          unwound = concat (map (\<lambda>(d, found). map (\<lambda>(cid, c). (d, c)) found) looked_up)
      in map (\<lambda>(d, c). (key_fullName d, key_name c)) unwound)"

text \<open>
  Q2, lines 135-152: \<^verbatim>\<open>$match\<close> the companies, \<^verbatim>\<open>$lookup\<close> the documents whose
  \<^verbatim>\<open>company_id\<close> is the company's \<^verbatim>\<open>_id\<close>, \<^verbatim>\<open>$project\<close> the name and the
  \<^verbatim>\<open>$size\<close> of what was found.
\<close>

definition Q2_1 :: "(oid \<times> doc1) list \<Rightarrow> (string option \<times> nat) list" where
  "Q2_1 coll =
     (let matched = filter (\<lambda>(cid, d). doc_type1 d = ''company'') coll;
          looked_up = map (\<lambda>(cid, d). (d, filter (\<lambda>(pid, p). key_company_id p = Some cid) coll)) matched
      in map (\<lambda>(d, found). (key_name d, length found)) looked_up)"

text \<open>
  Q3, lines 163-171: \<^verbatim>\<open>update_many\<close> with the filter
  \<^verbatim>\<open>{"type": "person", "dateOfBirth": {"$lt": cutoff}}\<close> and the update
  \<^verbatim>\<open>{"$set": {"age": 30}}\<close>.  A company document fails the filter.
\<close>

definition Q3_1 :: "(oid \<times> doc1) list \<Rightarrow> (oid \<times> doc1) list" where
  "Q3_1 coll =
     map (\<lambda>(k, d).
            (case d of
               Person p \<Rightarrow>
                 if date_lt (dateOfBirth p) cutoff then (k, Person (p\<lparr>age := 30\<rparr>)) else (k, d)
             | Company c \<Rightarrow> (k, d)))
         coll"

text \<open>
  Q4, lines 187-190: \<^verbatim>\<open>update_many\<close> with the filter \<^verbatim>\<open>{"type": "company"}\<close> and
  the pipeline update \<^verbatim>\<open>{"$set": {"name": {"$concat": ["$name", " Company"]}}}\<close>.
\<close>

definition Q4_1 :: "(oid \<times> doc1) list \<Rightarrow> (oid \<times> doc1) list" where
  "Q4_1 coll =
     map (\<lambda>(k, d).
            (case d of
               Company c \<Rightarrow> (k, Company (c\<lparr>name := name c @ '' Company''\<rparr>))
             | Person p \<Rightarrow> (k, d)))
         coll"

subsection \<open>Model 2: persons embedding their company\<close>

text \<open>Q1, lines 104-107: \<^verbatim>\<open>find\<close> the persons, projecting two fields.\<close>

definition Q1_2 :: "(oid \<times> person2) list \<Rightarrow> (string \<times> string) list" where
  "Q1_2 coll =
     map (\<lambda>(k, p). (fullName p, name (embedded p)))
         (filter (\<lambda>(k, p). doc_type2 p = ''person'') coll)"

text \<open>
  \<^verbatim>\<open>$group\<close> with \<^verbatim>\<open>{"$sum": 1}\<close>: one row for each distinct key, with the number
  of documents that have it.  MongoDB promises no order for the groups; the model
  lists them in the order of first occurrence.
\<close>

fun tally :: "'k \<Rightarrow> ('k \<times> nat) list \<Rightarrow> ('k \<times> nat) list" where
  "tally k [] = [(k, 1)]"
| "tally k ((k', n) # groups) =
     (if k = k' then (k', n + 1) # groups else (k', n) # tally k groups)"

definition group_count :: "'k list \<Rightarrow> ('k \<times> nat) list" where
  "group_count ks = foldl (\<lambda>groups k. tally k groups) [] ks"

text \<open>
  Q2, lines 120-131: \<^verbatim>\<open>$match\<close> the persons, \<^verbatim>\<open>$group\<close> them by
  \<^verbatim>\<open>$company.name\<close>, \<^verbatim>\<open>$project\<close> the key and the count.
\<close>

definition Q2_2 :: "(oid \<times> person2) list \<Rightarrow> (string \<times> nat) list" where
  "Q2_2 coll =
     group_count (map (\<lambda>(k, p). name (embedded p))
                      (filter (\<lambda>(k, p). doc_type2 p = ''person'') coll))"

text \<open>Q3, lines 142-148: the same filtered \<^verbatim>\<open>update_many\<close> as in model 1.\<close>

definition Q3_2 :: "(oid \<times> person2) list \<Rightarrow> (oid \<times> person2) list" where
  "Q3_2 coll =
     map (\<lambda>(k, p).
            if doc_type2 p = ''person'' \<and> date_lt (dateOfBirth p) cutoff
            then (k, p\<lparr>age := 30\<rparr>) else (k, p))
         coll"

text \<open>
  Q4, lines 164-167: \<^verbatim>\<open>update_many\<close> on the persons with
  \<^verbatim>\<open>{"$set": {"company.name": {"$concat": ["$company.name", " Company"]}}}\<close>.
\<close>

definition Q4_2 :: "(oid \<times> person2) list \<Rightarrow> (oid \<times> person2) list" where
  "Q4_2 coll =
     map (\<lambda>(k, p).
            if doc_type2 p = ''person''
            then (k, p\<lparr>embedded := (embedded p)\<lparr>name := name (embedded p) @ '' Company''\<rparr>\<rparr>)
            else (k, p))
         coll"

subsection \<open>Model 3: companies embedding their employees\<close>

text \<open>
  Q1, lines 101-108: \<^verbatim>\<open>$unwind\<close> the employees (one row for each employee; a
  company without employees gives none), \<^verbatim>\<open>$project\<close> the employee's full name
  and the company's name.
\<close>

definition Q1_3 :: "(oid \<times> company3) list \<Rightarrow> (string \<times> string) list" where
  "Q1_3 coll =
     concat (map (\<lambda>(k, c). map (\<lambda>emp. (fullName emp, name c)) (employees c)) coll)"

text \<open>
  Q2, lines 130-133: \<^verbatim>\<open>find\<close> every document, projecting the name and the
  \<^verbatim>\<open>$size\<close> of the list of employees.
\<close>

definition Q2_3 :: "(oid \<times> company3) list \<Rightarrow> (string \<times> nat) list" where
  "Q2_3 coll = map (\<lambda>(k, c). (name c, length (employees c))) coll"

text \<open>
  Q3, lines 149-167.  The inner loop over \<^verbatim>\<open>company["employees"]\<close> returns the
  rewritten list and the flag \<^verbatim>\<open>modified\<close>.
\<close>

definition scan_employees :: "person list \<Rightarrow> person list \<times> bool" where
  "scan_employees emps =
     foldl (\<lambda>(updated_employees, modified) emp.
              if date_lt (dateOfBirth emp) cutoff
              then (updated_employees @ [emp\<lparr>age := 30\<rparr>], True)
              else (updated_employees @ [emp], modified))
           ([], False) emps"

text \<open>\<^verbatim>\<open>update_one({"_id": k}, ...)\<close>: the first document with that \<^verbatim>\<open>_id\<close>.\<close>

fun update_one :: "oid \<Rightarrow> ('d \<Rightarrow> 'd) \<Rightarrow> (oid \<times> 'd) list \<Rightarrow> (oid \<times> 'd) list" where
  "update_one k f [] = []"
| "update_one k f ((i, d) # rest) =
     (if i = k then (i, f d) # rest else (i, d) # update_one k f rest)"

text \<open>
  The outer loop runs over the companies \<^verbatim>\<open>find\<close> returned for the filter
  \<^verbatim>\<open>{"employees.dateOfBirth": {"$lt": cutoff}}\<close> (some employee was born before the
  cutoff), as read when the query was issued, and writes each rewritten list back
  with \<^verbatim>\<open>{"$set": {"employees": updated_employees}}\<close>.
\<close>

definition Q3_3 :: "(oid \<times> company3) list \<Rightarrow> (oid \<times> company3) list" where
  "Q3_3 coll =
     foldl (\<lambda>current (cid, company).
              (case scan_employees (employees company) of
                 (updated_employees, modified) \<Rightarrow>
                   if modified
                   then update_one cid (\<lambda>d. d\<lparr>employees := updated_employees\<rparr>) current
                   else current))
           coll
           (filter (\<lambda>(cid, company).
                      list_ex (\<lambda>emp. date_lt (dateOfBirth emp) cutoff) (employees company))
                   coll)"

text \<open>Q4, lines 191-194: \<^verbatim>\<open>update_many\<close> on every document.\<close>

definition Q4_3 :: "(oid \<times> company3) list \<Rightarrow> (oid \<times> company3) list" where
  "Q4_3 coll = map (\<lambda>(k, c). (k, c\<lparr>name := name c @ '' Company''\<rparr>)) coll"

section \<open>The generators\<close>

text \<open>
  What a run that does not raise leaves behind: the rows Q1 and Q2 returned on the
  loaded collection, and the database after Q3 and Q4 have rewritten it.
\<close>

record ('a, 'b, 'd) run =
  Q1_rows :: "'a list"
  Q2_rows :: "'b list"
  final :: "'d database"

definition data_generator1 ::
  "provider \<Rightarrow> int \<Rightarrow> int \<Rightarrow> int \<Rightarrow> doc1 database
     \<Rightarrow> (py_error \<times> doc1 database) + (string option \<times> string option, string option \<times> nat, doc1) run" where
  "data_generator1 fake n_people n_companies batch_size db0 =
     (case load1 fake n_people n_companies batch_size db0 of
        Inl e \<Rightarrow> Inl e
      | Inr dbs \<Rightarrow>
          Inr \<lparr>Q1_rows = Q1_1 (find_all lab2_big_data dbs),
               Q2_rows = Q2_1 (find_all lab2_big_data dbs),
               final = rewrite_collection lab2_big_data Q4_1
                         (rewrite_collection lab2_big_data Q3_1 dbs)\<rparr>)"

definition data_generator2 ::
  "provider \<Rightarrow> int \<Rightarrow> int \<Rightarrow> int \<Rightarrow> person2 database
     \<Rightarrow> (py_error \<times> person2 database) + (string \<times> string, string \<times> nat, person2) run" where
  "data_generator2 fake n_people n_companies batch_size db0 =
     (case load2 fake n_people n_companies batch_size db0 of
        Inl e \<Rightarrow> Inl e
      | Inr dbs \<Rightarrow>
          Inr \<lparr>Q1_rows = Q1_2 (find_all lab2_big_data dbs),
               Q2_rows = Q2_2 (find_all lab2_big_data dbs),
               final = rewrite_collection lab2_big_data Q4_2
                         (rewrite_collection lab2_big_data Q3_2 dbs)\<rparr>)"

definition data_generator3 ::
  "provider \<Rightarrow> int \<Rightarrow> int \<Rightarrow> int \<Rightarrow> company3 database
     \<Rightarrow> (py_error \<times> company3 database) + (string \<times> string, string \<times> nat, company3) run" where
  "data_generator3 fake n_people n_companies batch_size db0 =
     (case load3 fake n_people n_companies batch_size db0 of
        Inl e \<Rightarrow> Inl e
      | Inr dbs \<Rightarrow>
          Inr \<lparr>Q1_rows = Q1_3 (find_all lab2_big_data dbs),
               Q2_rows = Q2_3 (find_all lab2_big_data dbs),
               final = rewrite_collection lab2_big_data Q4_3
                         (rewrite_collection lab2_big_data Q3_3 dbs)\<rparr>)"

section \<open>Vocabulary of the properties\<close>

subsection \<open>What a run generates\<close>

text \<open>
  The draws the inner loop consumes for company \<open>i\<close>, one for each of its
  \<open>num_employees\<close> iterations, and the draws of the whole run in the order of
  generation, each with the index of its company.
\<close>

definition staff :: "provider \<Rightarrow> int \<Rightarrow> int \<Rightarrow> nat \<Rightarrow> draw list" where
  "staff fake n_people n_companies i =
     map (fake_person fake i)
         (py_range (num_employees (n_people div n_companies) (n_people mod n_companies) i))"

definition roster :: "provider \<Rightarrow> int \<Rightarrow> int \<Rightarrow> (nat \<times> draw) list" where
  "roster fake n_people n_companies =
     concat (map (\<lambda>i. map (Pair i) (staff fake n_people n_companies i)) (py_range n_companies))"

text \<open>
  The documents a run hands to the batched writer, in order: the person documents
  of model 1 (the company at index \<open>i\<close> has the \<^verbatim>\<open>_id\<close> \<open>first_id + i\<close>), those of
  model 2, and the company documents of model 3.  \<open>companies1\<close> is the list
  \<^verbatim>\<open>companies\<close> model 1 inserts in one call.
\<close>

definition companies1 :: "provider \<Rightarrow> int \<Rightarrow> doc1 list" where
  "companies1 fake n_companies = map (\<lambda>i. Company (fake_company fake i)) (py_range n_companies)"

definition documents1 :: "provider \<Rightarrow> int \<Rightarrow> int \<Rightarrow> oid \<Rightarrow> doc1 list" where
  "documents1 fake n_people n_companies first_id =
     concat (map (\<lambda>i. map (\<lambda>d. Person (new_person1 d (first_id + i)))
                          (staff fake n_people n_companies i))
                 (py_range n_companies))"

definition documents2 :: "provider \<Rightarrow> int \<Rightarrow> int \<Rightarrow> person2 list" where
  "documents2 fake n_people n_companies =
     concat (map (\<lambda>i. map (\<lambda>d. new_person2 d (fake_company fake i))
                          (staff fake n_people n_companies i))
                 (py_range n_companies))"

definition documents3 :: "provider \<Rightarrow> int \<Rightarrow> int \<Rightarrow> company3 list" where
  "documents3 fake n_people n_companies =
     map (\<lambda>i. new_company3 (fake_company fake i)
                 (map new_person (staff fake n_people n_companies i)))
         (py_range n_companies)"

subsection \<open>What the writer has done\<close>

text \<open>
  The database after \<^verbatim>\<open>drop_collection\<close> and \<^verbatim>\<open>create_collection\<close>.
\<close>

definition fresh :: "'d database \<Rightarrow> 'd database" where
  "fresh db0 = db0\<lparr>collections := (collections db0)(lab2_big_data \<mapsto> [])\<rparr>"

text \<open>
  \<open>flushed m w docs w' batches\<close>: the loop took the writer from \<open>w\<close> to \<open>w'\<close> over the
  documents \<open>docs\<close> and made the \<^verbatim>\<open>insert_many\<close> calls \<open>batches\<close>, each of \<open>m\<close>
  documents; what was buffered or appended is either in a batch or still buffered;
  the collection grew by the batches, with consecutive fresh \<^verbatim>\<open>_id\<close>s.
  \<open>written m dbs docs dbs' batches\<close>: the same for the loop followed by the final
  flush, from the database \<open>dbs\<close> to \<open>dbs'\<close>: every document is in a batch, the
  last batch may be short, none is empty.
\<close>

definition flushed :: "nat \<Rightarrow> 'd writer \<Rightarrow> 'd list \<Rightarrow> 'd writer \<Rightarrow> 'd list list \<Rightarrow> bool" where
  "flushed m w docs w' batches =
     (insert_calls (store w') = insert_calls (store w) @ batches
       \<and> concat batches @ buffer w' = buffer w @ docs
       \<and> list_all (\<lambda>b. length b = m) batches
       \<and> length (buffer w') < m
       \<and> find_all lab2_big_data (store w') =
            find_all lab2_big_data (store w)
              @ enumerate (next_oid (store w)) (concat batches)
       \<and> next_oid (store w') = next_oid (store w) + length (concat batches))"

definition written :: "nat \<Rightarrow> 'd database \<Rightarrow> 'd list \<Rightarrow> 'd database \<Rightarrow> 'd list list \<Rightarrow> bool" where
  "written m dbs docs dbs' batches =
     (insert_calls dbs' = insert_calls dbs @ batches
       \<and> concat batches = docs
       \<and> list_all (\<lambda>b. length b = m) (butlast batches)
       \<and> list_all (\<lambda>b. 0 < length b \<and> length b \<le> m) batches
       \<and> find_all lab2_big_data dbs' = find_all lab2_big_data dbs @ enumerate (next_oid dbs) docs
       \<and> next_oid dbs' = next_oid dbs + length docs)"

text \<open>
  \<open>wiped db0 dbs\<close>: \<open>dbs\<close> holds the collection, empty; no \<^verbatim>\<open>insert_many\<close> call
  and no \<^verbatim>\<open>_id\<close> separates it from \<open>db0\<close>; and it differs from \<open>db0\<close> when the
  collection of \<open>db0\<close> held documents.
\<close>

definition wiped :: "'d database \<Rightarrow> 'd database \<Rightarrow> bool" where
  "wiped db0 dbs =
     (collections dbs lab2_big_data = Some []
      \<and> insert_calls dbs = insert_calls db0
      \<and> next_oid dbs = next_oid db0
      \<and> (find_all lab2_big_data db0 \<noteq> [] \<longrightarrow> dbs \<noteq> db0))"

subsection \<open>Reading a collection\<close>

text \<open>
  The persons a collection stores, in order: the person documents of models 1
  and 2, the embedded employees of model 3.  The company names it stores: the
  names of the company documents of models 1 and 3, the embedded name of every
  person document of model 2.
\<close>

fun as_person :: "doc1 \<Rightarrow> person1 list" where
  "as_person (Person p) = [p]"
| "as_person (Company c) = []"

fun as_company :: "doc1 \<Rightarrow> company list" where
  "as_company (Company c) = [c]"
| "as_company (Person p) = []"

definition persons1 :: "(oid \<times> doc1) list \<Rightarrow> person1 list" where
  "persons1 coll = concat (map (\<lambda>(k, d). as_person d) coll)"

definition persons2 :: "(oid \<times> person2) list \<Rightarrow> person2 list" where
  "persons2 coll = map snd coll"

definition persons3 :: "(oid \<times> company3) list \<Rightarrow> person list" where
  "persons3 coll = concat (map (\<lambda>(k, c). employees c) coll)"

definition names1 :: "(oid \<times> doc1) list \<Rightarrow> string list" where
  "names1 coll = concat (map (\<lambda>(k, d). map name (as_company d)) coll)"

definition names2 :: "(oid \<times> person2) list \<Rightarrow> string list" where
  "names2 coll = map (\<lambda>(k, p). name (embedded p)) coll"

definition names3 :: "(oid \<times> company3) list \<Rightarrow> string list" where
  "names3 coll = map (\<lambda>(k, c). name c) coll"

subsection \<open>The effect of Q3 on one person\<close>

text \<open>
  \<open>retire p\<close> is \<open>p\<close> with the age 30 when \<open>p\<close> was born before the cutoff, and \<open>p\<close>
  otherwise; no other field is touched.  \<open>retire1\<close> and \<open>rewritten\<close> apply it inside
  a document of model 1 and to the employees of a company of model 3.
\<close>

definition born_before :: "'a person_scheme \<Rightarrow> bool" where
  "born_before p = date_lt (dateOfBirth p) cutoff"

definition retire :: "'a person_scheme \<Rightarrow> 'a person_scheme" where
  "retire p = p\<lparr>age := (if born_before p then 30 else age p)\<rparr>"

definition retire1 :: "doc1 \<Rightarrow> doc1" where
  "retire1 d = (case d of Person p \<Rightarrow> Person (retire p) | Company c \<Rightarrow> Company c)"

definition rewritten :: "company3 \<Rightarrow> company3" where
  "rewritten c = c\<lparr>employees := map retire (employees c)\<rparr>"

subsection \<open>The age on a date\<close>

text \<open>
  The age the specification describes, in its words: the current year minus the
  birth year, minus 1 if today's (month, day) precedes the birthday's
  (month, day).  It is a function of one date \<open>today\<close> and of the date of birth.
\<close>

definition age_on :: "date \<Rightarrow> date \<Rightarrow> int" where
  "age_on today dob =
     year today - year dob
     - (if month today < month dob \<or> (month today = month dob \<and> day today < day dob)
        then 1 else 0)"

section \<open>Sample values\<close>

text \<open>
  A company, a date, three draws (born 1975-05-01, 1990-01-01 and 2000-12-25, all
  drawn on 2025-06-15), two providers, three databases and three small collections
  on which the theorems below are instantiated.  The provider \<open>demo\<close> names its first
  three companies Acme, Bolt and Cog; \<open>twins\<close> names every company Acme.  The draw
  \<open>eve\<close> (born 1990-06-15) is made across midnight: its first clock reading falls on
  2025-12-31 and the other two on 2026-01-01; the provider \<open>straddle\<close> hands it to
  every person.
\<close>

definition acme :: company where
  "acme = \<lparr>domain = ''acme.example'', email = ''info@acme.example'', name = ''Acme'',
           url = ''http://acme.example/'', vatNumber = ''AB12345678''\<rparr>"

definition today :: date where
  "today = \<lparr>year = 2025, month = 6, day = 15\<rparr>"

definition ada :: draw where
  "ada = \<lparr>d_dob = \<lparr>year = 1975, month = 5, day = 1\<rparr>,
          d_now_year = today, d_now_month = today, d_now_day = today,
          d_company_email = ''ada@acme.example'', d_email = ''ada@mail.example'',
          d_first_name = ''Ada'', d_name = ''Ada Lovelace'', d_choice = False\<rparr>"

definition bob :: draw where
  "bob = \<lparr>d_dob = \<lparr>year = 1990, month = 1, day = 1\<rparr>,
          d_now_year = today, d_now_month = today, d_now_day = today,
          d_company_email = ''bob@acme.example'', d_email = ''bob@mail.example'',
          d_first_name = ''Bob'', d_name = ''Bob Noyce'', d_choice = True\<rparr>"

definition cyd :: draw where
  "cyd = \<lparr>d_dob = \<lparr>year = 2000, month = 12, day = 25\<rparr>,
          d_now_year = today, d_now_month = today, d_now_day = today,
          d_company_email = ''cyd@acme.example'', d_email = ''cyd@mail.example'',
          d_first_name = ''Cyd'', d_name = ''Cyd Charisse'', d_choice = False\<rparr>"

definition demo :: provider where
  "demo = \<lparr>fake_company = (\<lambda>i. if i = 0 then acme else if i = 1 then acme\<lparr>name := ''Bolt''\<rparr> else acme\<lparr>name := ''Cog''\<rparr>),
           fake_person = (\<lambda>i j. if j = 0 then ada else if j = 1 then bob else cyd)\<rparr>"

definition new_years_eve :: date where
  "new_years_eve = \<lparr>year = 2025, month = 12, day = 31\<rparr>"

definition new_years_day :: date where
  "new_years_day = \<lparr>year = 2026, month = 1, day = 1\<rparr>"

definition eve :: draw where
  "eve = \<lparr>d_dob = \<lparr>year = 1990, month = 6, day = 15\<rparr>,
          d_now_year = new_years_eve, d_now_month = new_years_day, d_now_day = new_years_day,
          d_company_email = ''eve@acme.example'', d_email = ''eve@mail.example'',
          d_first_name = ''Eve'', d_name = ''Eve Arden'', d_choice = False\<rparr>"

definition straddle :: provider where
  "straddle = \<lparr>fake_company = (\<lambda>i. acme), fake_person = (\<lambda>i j. eve)\<rparr>"

definition twins :: provider where
  "twins = \<lparr>fake_company = (\<lambda>i. acme), fake_person = (\<lambda>i j. ada)\<rparr>"

definition acme3 :: company3 where
  "acme3 = new_company3 acme []"

definition empty_db :: "'d database" where
  "empty_db = \<lparr>collections = Map.empty, next_oid = 0, insert_calls = []\<rparr>"

definition stale_db :: "'d \<Rightarrow> 'd database" where
  "stale_db d = \<lparr>collections = [lab2_big_data \<mapsto> [(0, d)]], next_oid = 1, insert_calls = [[d]]\<rparr>"

definition sample1 :: "(oid \<times> doc1) list" where
  "sample1 = [(0, Company acme), (1, Person (new_person1 ada 0)), (2, Person (new_person1 bob 0))]"

definition sample2 :: "(oid \<times> person2) list" where
  "sample2 = [(0, new_person2 ada acme), (1, new_person2 bob acme)]"

definition sample3 :: "(oid \<times> company3) list" where
  "sample3 = [(0, new_company3 acme [new_person ada, new_person bob])]"

section \<open>Auxiliary lemmas\<close>

subsection \<open>The sum of the distribution\<close>

lemma sum_list_num_employees:
  "sum_list (map (num_employees q r) [0..<n]) = int n * q + int (min n (nat r))"
proof (induction n)
  case 0
  show ?case by simp
next
  case (Suc n)
  then show ?case by (auto simp: num_employees_def algebra_simps min_def)
qed

subsection \<open>Loops, the writer and the load phase\<close>

text \<open>
  A nested loop is the loop over the concatenated ranges.  The writer keeps fewer
  than \<open>m\<close> documents buffered and flushes batches of \<open>m\<close>; after the final flush
  everything is written.  Each load phase is then the writer run on the documents
  of the model.
\<close>

lemma for_each_append:
  "for_each body (xs @ ys) s =
     (case for_each body xs s of Inl e \<Rightarrow> Inl e | Inr s' \<Rightarrow> for_each body ys s')"
  by (induction xs arbitrary: s) (auto split: sum.splits)

lemma for_each_map: "for_each (\<lambda>x. body (f x)) xs s = for_each body (map f xs) s"
  by (induction xs arbitrary: s) (auto split: sum.splits)

lemma for_each_concat:
  "for_each (\<lambda>x. for_each body (f x)) xs s = for_each body (concat (map f xs)) s"
  by (induction xs arbitrary: s) (auto simp: for_each_append split: sum.splits)


lemma flushed_refl: "length (buffer w) < m \<Longrightarrow> flushed m w [] w []"
  by (simp add: flushed_def)

lemma flushed_keep:
  assumes "flushed m \<lparr>store = store w, buffer = buffer w @ [x]\<rparr> docs w' batches"
  shows "flushed m w (x # docs) w' batches"
  using assms by (simp add: flushed_def)

lemma flushed_flush:
  assumes "flushed m \<lparr>store = db1, buffer = []\<rparr> docs w' batches"
    and "length buf = m" and "buf = buffer w @ [x]"
    and "insert_calls db1 = insert_calls (store w) @ [buf]"
    and "next_oid db1 = next_oid (store w) + length buf"
    and "find_all lab2_big_data db1 = find_all lab2_big_data (store w)
            @ enumerate (next_oid (store w)) buf"
  shows "flushed m w (x # docs) w' (buf # batches)"
  using assms unfolding flushed_def by (simp add: enumerate_append_eq add.assoc)

lemma insert_many_nonempty:
  assumes "docs \<noteq> []"
  shows "\<exists>ids db1. insert_many cname docs dbs = Inr (ids, db1)
          \<and> insert_calls db1 = insert_calls dbs @ [docs]
          \<and> next_oid db1 = next_oid dbs + length docs
          \<and> find_all cname db1 = find_all cname dbs @ enumerate (next_oid dbs) docs
          \<and> ids = [next_oid dbs ..< next_oid dbs + length docs]
          \<and> (\<forall>c. c \<noteq> cname \<longrightarrow> collections db1 c = collections dbs c)"
  using assms by (simp add: insert_many_def Let_def find_all_def enumerate_eq_zip)

lemma writer_loop:
  assumes "m = nat (max 1 batch_size)"
  shows "length (buffer w) < m \<Longrightarrow>
     \<exists>w' batches. for_each (append_flush batch_size) docs w = Inr w' \<and> flushed m w docs w' batches"
proof (induction docs arbitrary: w)
  case Nil
  then have "flushed m w [] w []" by (rule flushed_refl)
  moreover have "for_each (append_flush batch_size) [] w = Inr w" by simp
  ultimately show ?case by blast
next
  case (Cons x docs)
  define buf where "buf = buffer w @ [x]"
  show ?case
  proof (cases "batch_size \<le> int (length buf)")
    case False
    then have lt: "length buf < m" using assms by auto
    define w1 where "w1 = \<lparr>store = store w, buffer = buf\<rparr>"
    have step: "append_flush batch_size x w = Inr w1"
      using False by (simp add: append_flush_def buf_def w1_def)
    have "length (buffer w1) < m" using lt by (simp add: w1_def)
    from Cons.IH [OF this] obtain w' batches where
      r: "for_each (append_flush batch_size) docs w1 = Inr w'" "flushed m w1 docs w' batches"
      by blast
    have "flushed m w (x # docs) w' batches"
      using r(2) unfolding w1_def buf_def by (rule flushed_keep)
    moreover have "for_each (append_flush batch_size) (x # docs) w = Inr w'"
      using step r(1) by simp
    ultimately show ?thesis by blast
  next
    case True
    have "length buf \<le> m" using Cons.prems by (simp add: buf_def)
    moreover have "m \<le> length buf" using True assms by (auto simp: buf_def)
    ultimately have eq: "length buf = m" by simp
    have "buf \<noteq> []" by (simp add: buf_def)
    from insert_many_nonempty [OF this, of lab2_big_data "store w"] obtain ids db1 where
      ins: "insert_many lab2_big_data buf (store w) = Inr (ids, db1)"
        "insert_calls db1 = insert_calls (store w) @ [buf]"
        "next_oid db1 = next_oid (store w) + length buf"
        "find_all lab2_big_data db1 = find_all lab2_big_data (store w) @ enumerate (next_oid (store w)) buf"
      by blast
    define w1 where "w1 = \<lparr>store = db1, buffer = ([] :: 'a list)\<rparr>"
    have step: "append_flush batch_size x w = Inr w1"
      using True ins(1) by (simp add: append_flush_def buf_def w1_def)
    have "length (buffer w1) < m" using assms by (simp add: w1_def)
    from Cons.IH [OF this] obtain w' batches where
      r: "for_each (append_flush batch_size) docs w1 = Inr w'" "flushed m w1 docs w' batches"
      by blast
    have "flushed m w (x # docs) w' (buf # batches)"
      using r(2) eq buf_def ins(2-4) unfolding w1_def by (rule flushed_flush)
    moreover have "for_each (append_flush batch_size) (x # docs) w = Inr w'"
      using step r(1) by simp
    ultimately show ?thesis by blast
  qed
qed

lemma for_each_nested:
  "for_each (\<lambda>x. for_each (\<lambda>j. body (g x j)) (f x)) xs s
     = for_each body (concat (map (\<lambda>x. map (g x) (f x)) xs)) s"
proof (induction xs arbitrary: s)
  case Nil
  show ?case by simp
next
  case (Cons x xs)
  have "for_each (\<lambda>j. body (g x j)) (f x) s = for_each body (map (g x) (f x)) s"
    by (rule for_each_map)
  then show ?case using Cons.IH
    by (simp add: for_each_append split: sum.splits)
qed

lemma write_all:
  assumes "m = nat (max 1 batch_size)"
  shows "\<exists>dbs' batches.
     (case for_each (append_flush batch_size) docs \<lparr>store = dbs, buffer = []\<rparr> of
        Inl e \<Rightarrow> Inl e | Inr w \<Rightarrow> flush_rest w) = Inr dbs'
     \<and> written m dbs docs dbs' batches"
proof -
  define w0 where "w0 = \<lparr>store = dbs, buffer = ([] :: 'a list)\<rparr>"
  have "length (buffer w0) < m" using assms by (simp add: w0_def)
  from writer_loop [OF assms this] obtain w batches where
    r: "for_each (append_flush batch_size) docs w0 = Inr w" "flushed m w0 docs w batches"
    by blast
  from r(2) have f: "insert_calls (store w) = insert_calls dbs @ batches"
    "concat batches @ buffer w = docs" "list_all (\<lambda>b. length b = m) batches"
    "length (buffer w) < m"
    "find_all lab2_big_data (store w) = find_all lab2_big_data dbs @ enumerate (next_oid dbs) (concat batches)"
    "next_oid (store w) = next_oid dbs + length (concat batches)"
    by (simp_all add: flushed_def w0_def)
  have m0: "0 < m" using assms by simp
  have full: "list_all (\<lambda>b. 0 < length b \<and> length b \<le> m) batches"
    using f(3) m0 by (auto simp: list_all_iff)
  show ?thesis
  proof (cases "buffer w = []")
    case True
    have "flush_rest w = Inr (store w)" using True by (simp add: flush_rest_def)
    moreover have "written m dbs docs (store w) batches"
      using f full True by (simp add: written_def list_all_iff) (meson in_set_butlastD)
    ultimately show ?thesis using r(1) unfolding w0_def by auto
  next
    case False
    from insert_many_nonempty [OF False, of lab2_big_data "store w"] obtain ids db1 where
      ins: "insert_many lab2_big_data (buffer w) (store w) = Inr (ids, db1)"
        "insert_calls db1 = insert_calls (store w) @ [buffer w]"
        "next_oid db1 = next_oid (store w) + length (buffer w)"
        "find_all lab2_big_data db1 = find_all lab2_big_data (store w) @ enumerate (next_oid (store w)) (buffer w)"
      by blast
    have "flush_rest w = Inr db1" using False ins(1) by (simp add: flush_rest_def)
    moreover have "written m dbs docs db1 (batches @ [buffer w])"
    proof -
      have "enumerate (next_oid dbs) docs
            = enumerate (next_oid dbs) (concat batches) @ enumerate (next_oid dbs + length (concat batches)) (buffer w)"
        using f(2) enumerate_append_eq [of "next_oid dbs" "concat batches" "buffer w"] by simp
      moreover have "length docs = length (concat batches) + length (buffer w)"
        using f(2) by (metis length_append)
      ultimately show ?thesis
        using f full ins(2-4) False unfolding written_def
        by (simp add: list_all_iff)
    qed
    ultimately show ?thesis using r(1) unfolding w0_def by auto
  qed
qed

lemma fresh_collection:
  "create_collection lab2_big_data (drop_collection lab2_big_data db0) = Inr (fresh db0)"
  by (simp add: create_collection_def drop_collection_def fresh_def)

lemma fresh_simps:
  "find_all lab2_big_data (fresh db0) = []"
  "next_oid (fresh db0) = next_oid db0"
  "insert_calls (fresh db0) = insert_calls db0"
  by (simp_all add: fresh_def find_all_def)

lemma load3_ok:
  assumes "n_companies \<noteq> 0" and "m = nat (max 1 batch_size)"
  shows "\<exists>dbs batches. load3 fake n_people n_companies batch_size db0 = Inr dbs
           \<and> written m (fresh db0) (documents3 fake n_people n_companies) dbs batches"
proof -
  from write_all [OF assms(2), of "documents3 fake n_people n_companies" "fresh db0"]
  obtain dbs batches where
    r: "(case for_each (append_flush batch_size) (documents3 fake n_people n_companies)
               \<lparr>store = fresh db0, buffer = []\<rparr> of
        Inl e \<Rightarrow> Inl e | Inr w \<Rightarrow> flush_rest w) = Inr dbs"
       "written m (fresh db0) (documents3 fake n_people n_companies) dbs batches"
    by blast
  let ?build = "\<lambda>i. new_company3 (fake_company fake i)
                        (map (\<lambda>j. new_person (fake_person fake i j))
                             (py_range (num_employees (n_people div n_companies) (n_people mod n_companies) i)))"
  have docs: "documents3 fake n_people n_companies = map ?build (py_range n_companies)"
    by (simp add: documents3_def staff_def comp_def)
  have loop: "for_each (\<lambda>i. append_flush batch_size (?build i)) (py_range n_companies)
                 \<lparr>store = fresh db0, buffer = []\<rparr>
        = for_each (append_flush batch_size) (documents3 fake n_people n_companies)
                 \<lparr>store = fresh db0, buffer = []\<rparr>"
    unfolding docs by (rule for_each_map)
  have "load3 fake n_people n_companies batch_size db0 = Inr dbs"
    using assms(1) r(1) unfolding load3_def fresh_collection py_floordiv_def py_mod_def
    by (simp add: loop)
  then show ?thesis using r(2) by blast
qed

lemma for_each_pairs:
  "for_each (\<lambda>(i, c). for_each (\<lambda>j. body (g i c j)) (f i)) (map (\<lambda>i. (i, h i)) xs) s
     = for_each body (concat (map (\<lambda>i. map (g i (h i)) (f i)) xs)) s"
proof -
  have "for_each (\<lambda>x. for_each (\<lambda>j. body (g (fst x) (snd x) j)) (f (fst x))) (map (\<lambda>i. (i, h i)) xs) s
      = for_each body (concat (map (\<lambda>x. map (g (fst x) (snd x)) (f (fst x))) (map (\<lambda>i. (i, h i)) xs))) s"
    by (rule for_each_nested)
  then show ?thesis by (simp add: case_prod_unfold comp_def)
qed

lemma enumerate_map_range: "enumerate 0 (map h [0..<n]) = map (\<lambda>i. (i, h i)) [0..<n]"
  by (rule enumerate_map_upt)

lemma enumerate_upt_range: "enumerate 0 [b..<b + n] = map (\<lambda>i. (i, b + i)) [0..<n]"
proof -
  have "[b..<b + n] = map (\<lambda>i. b + i) [0..<n]" by (simp add: map_add_upt add.commute)
  then show ?thesis by (simp only: enumerate_map_range)
qed

lemma load2_ok:
  assumes "n_companies \<noteq> 0" and "m = nat (max 1 batch_size)"
  shows "\<exists>dbs batches. load2 fake n_people n_companies batch_size db0 = Inr dbs
           \<and> written m (fresh db0) (documents2 fake n_people n_companies) dbs batches"
proof -
  from write_all [OF assms(2), of "documents2 fake n_people n_companies" "fresh db0"]
  obtain dbs batches where
    r: "(case for_each (append_flush batch_size) (documents2 fake n_people n_companies)
               \<lparr>store = fresh db0, buffer = []\<rparr> of
        Inl e \<Rightarrow> Inl e | Inr w \<Rightarrow> flush_rest w) = Inr dbs"
       "written m (fresh db0) (documents2 fake n_people n_companies) dbs batches"
    by blast
  let ?num = "\<lambda>i. py_range (num_employees (n_people div n_companies) (n_people mod n_companies) i)"
  have docs: "documents2 fake n_people n_companies
        = concat (map (\<lambda>i. map (\<lambda>j. new_person2 (fake_person fake i j) (fake_company fake i)) (?num i))
                      [0..<nat n_companies])"
    by (simp add: documents2_def staff_def comp_def py_range_def)
  have loop: "for_each
             (\<lambda>(i, company).
                for_each
                  (\<lambda>j. append_flush batch_size (new_person2 (fake_person fake i j) company))
                  (?num i))
             (enumerate 0 (map (fake_company fake) (py_range n_companies)))
             \<lparr>store = fresh db0, buffer = []\<rparr>
        = for_each (append_flush batch_size) (documents2 fake n_people n_companies)
                 \<lparr>store = fresh db0, buffer = []\<rparr>"
    unfolding docs py_range_def enumerate_map_range
    by (rule for_each_pairs [where g = "\<lambda>i c j. new_person2 (fake_person fake i j) c"])
  have "load2 fake n_people n_companies batch_size db0 = Inr dbs"
    using assms(1) r(1) unfolding load2_def fresh_collection py_floordiv_def py_mod_def
    by (simp add: loop)
  then show ?thesis using r(2) by blast
qed

lemma load1_ok:
  assumes "1 \<le> n_companies" and "m = nat (max 1 batch_size)"
  shows "\<exists>dbs batches db2. load1 fake n_people n_companies batch_size db0 = Inr dbs
           \<and> written m db2 (documents1 fake n_people n_companies (next_oid db0)) dbs batches
           \<and> find_all lab2_big_data db2 = enumerate (next_oid db0) (companies1 fake n_companies)
           \<and> next_oid db2 = next_oid db0 + nat n_companies
           \<and> insert_calls db2 = insert_calls db0 @ [companies1 fake n_companies]"
proof -
  have ne: "companies1 fake n_companies \<noteq> []"
    using assms(1) by (simp add: companies1_def py_range_def)
  have len: "length (companies1 fake n_companies) = nat n_companies"
    by (simp add: companies1_def py_range_def)
  from insert_many_nonempty [OF ne, of lab2_big_data "fresh db0"] obtain ids db2 where
    ins: "insert_many lab2_big_data (companies1 fake n_companies) (fresh db0) = Inr (ids, db2)"
      "insert_calls db2 = insert_calls db0 @ [companies1 fake n_companies]"
      "next_oid db2 = next_oid db0 + nat n_companies"
      "find_all lab2_big_data db2 = enumerate (next_oid db0) (companies1 fake n_companies)"
      "ids = [next_oid db0 ..< next_oid db0 + nat n_companies]"
    unfolding fresh_simps len by auto
  from write_all [OF assms(2), of "documents1 fake n_people n_companies (next_oid db0)" db2]
  obtain dbs batches where
    r: "(case for_each (append_flush batch_size) (documents1 fake n_people n_companies (next_oid db0))
               \<lparr>store = db2, buffer = []\<rparr> of
        Inl e \<Rightarrow> Inl e | Inr w \<Rightarrow> flush_rest w) = Inr dbs"
       "written m db2 (documents1 fake n_people n_companies (next_oid db0)) dbs batches"
    by blast
  let ?num = "\<lambda>i. py_range (num_employees (n_people div n_companies) (n_people mod n_companies) i)"
  have docs: "documents1 fake n_people n_companies (next_oid db0)
        = concat (map (\<lambda>i. map (\<lambda>j. Person (new_person1 (fake_person fake i j) (next_oid db0 + i))) (?num i))
                      [0..<nat n_companies])"
    by (simp add: documents1_def staff_def comp_def py_range_def)
  have loop: "for_each
             (\<lambda>(i, company_id).
                for_each
                  (\<lambda>j. append_flush batch_size
                          (Person (new_person1 (fake_person fake i j) company_id)))
                  (?num i))
             (enumerate 0 ids)
             \<lparr>store = db2, buffer = []\<rparr>
        = for_each (append_flush batch_size) (documents1 fake n_people n_companies (next_oid db0))
                 \<lparr>store = db2, buffer = []\<rparr>"
    unfolding docs ins(5) enumerate_upt_range
    by (rule for_each_pairs [where g = "\<lambda>i c j. Person (new_person1 (fake_person fake i j) c)"])
  have nz: "n_companies \<noteq> 0" using assms(1) by simp
  have "load1 fake n_people n_companies batch_size db0 = Inr dbs"
    using nz r(1) ins(1) unfolding load1_def fresh_collection py_floordiv_def py_mod_def
    by (simp add: loop companies1_def)
  then show ?thesis using r(2) ins(2-4) by blast
qed

lemma load1_zero:
  "load1 fake n_people 0 batch_size db0 = Inl (TypeError, fresh db0)"
  unfolding load1_def fresh_collection by (simp add: py_range_def insert_many_def)

lemma load2_zero:
  "load2 fake n_people 0 batch_size db0 = Inl (ZeroDivisionError, fresh db0)"
  unfolding load2_def fresh_collection by (simp add: py_floordiv_def)

lemma load3_zero:
  "load3 fake n_people 0 batch_size db0 = Inl (ZeroDivisionError, fresh db0)"
  unfolding load3_def fresh_collection by (simp add: py_floordiv_def)

lemma wiped_fresh: "wiped db0 (fresh db0)"
proof -
  have "find_all lab2_big_data db0 \<noteq> [] \<longrightarrow> fresh db0 \<noteq> db0"
    using fresh_simps(1) [of db0] by auto
  moreover have "collections (fresh db0) lab2_big_data = Some []"
    by (simp add: fresh_def)
  ultimately show ?thesis by (simp add: wiped_def fresh_simps)
qed

subsection \<open>Q3 and Q4 on any collection\<close>

text \<open>
  Q3 of models 1 and 2 is a map over the documents.  Q3 of model 3 is a fold of
  \<open>update_one\<close> over the matching companies; on a collection with distinct
  \<^verbatim>\<open>_id\<close>s it is the same map over the employees of every company.
\<close>

lemma retire_simps:
  "born_before p \<Longrightarrow> retire p = p\<lparr>age := 30\<rparr>"
  "\<not> born_before p \<Longrightarrow> retire p = p"
  by (simp_all add: retire_def)

lemma born_before_eta: "(\<lambda>emp. date_lt (dateOfBirth emp) cutoff) = born_before"
  by (simp add: born_before_def fun_eq_iff)

lemma retire_idem: "retire (retire p) = retire p"
  by (simp add: retire_def born_before_def)

lemma scan_employees_fold:
  "foldl (\<lambda>(updated_employees, modified) emp.
              if date_lt (dateOfBirth emp) cutoff
              then (updated_employees @ [emp\<lparr>age := 30\<rparr>], True)
              else (updated_employees @ [emp], modified))
           (acc, m) emps
   = (acc @ map retire emps, m \<or> list_ex born_before emps)"
proof (induction emps arbitrary: acc m)
  case Nil
  show ?case by simp
next
  case (Cons e emps)
  show ?case
  proof (cases "born_before e")
    case True
    then show ?thesis using Cons.IH [of "acc @ [e\<lparr>age := 30\<rparr>]" True]
      by (simp add: retire_simps born_before_def)
  next
    case False
    then show ?thesis using Cons.IH [of "acc @ [e]" m]
      by (simp add: retire_simps born_before_def)
  qed
qed

lemma scan_employees_eq:
  "scan_employees emps = (map retire emps, list_ex born_before emps)"
  unfolding scan_employees_def by (simp add: scan_employees_fold)

lemma map_retire_none:
  "\<not> list_ex born_before emps \<Longrightarrow> map retire emps = emps"
  by (induction emps) (simp_all add: retire_simps)

lemma update_one_absent:
  "k \<notin> fst ` set ds \<Longrightarrow> update_one k f ds = ds"
  by (induction ds) auto

lemma update_one_distinct:
  "distinct (map fst ds) \<Longrightarrow>
     update_one k f ds = map (\<lambda>(i, d). if i = k then (i, f d) else (i, d)) ds"
proof (induction ds)
  case Nil
  show ?case by simp
next
  case (Cons x ds)
  obtain i d where x: "x = (i, d)" by (cases x)
  show ?case
  proof (cases "i = k")
    case True
    then have "k \<notin> fst ` set ds" using Cons.prems x by auto
    then have "map (\<lambda>(i, d). if i = k then (i, f d) else (i, d)) ds = ds"
      by (intro map_idI) force
    then show ?thesis using True x by simp
  next
    case False
    then show ?thesis using Cons x by simp
  qed
qed

lemma Q3_3_step:
  "(case scan_employees (employees company) of
                 (updated_employees, modified) \<Rightarrow>
                   if modified
                   then update_one cid (\<lambda>d. d\<lparr>employees := updated_employees\<rparr>) current
                   else current)
   = (if list_ex born_before (employees company)
      then update_one cid (\<lambda>d. d\<lparr>employees := map retire (employees company)\<rparr>) current
      else current)"
  by (simp add: scan_employees_eq)

lemma fold_updates:
  assumes "distinct (map fst sel)"
  shows "distinct (map fst ds) \<Longrightarrow>
    foldl (\<lambda>current (cid, company).
             if list_ex born_before (employees company)
             then update_one cid (\<lambda>d. d\<lparr>employees := map retire (employees company)\<rparr>) current
             else current) ds sel
    = map (\<lambda>(i, d). (case map_of sel i of
                       None \<Rightarrow> (i, d)
                     | Some c \<Rightarrow> if list_ex born_before (employees c)
                                then (i, d\<lparr>employees := map retire (employees c)\<rparr>) else (i, d))) ds"
  using assms
proof (induction sel arbitrary: ds)
  case Nil
  show ?case by simp
next
  case (Cons x sel)
  obtain cid c where x: "x = (cid, c)" by (cases x)
  let ?step = "\<lambda>current (cid, company).
             if list_ex born_before (employees company)
             then update_one cid (\<lambda>d. d\<lparr>employees := map retire (employees company)\<rparr>) current
             else current"
  let ?ds1 = "?step ds (cid, c)"
  have ds1: "?ds1 = map (\<lambda>(i, d). if i = cid \<and> list_ex born_before (employees c)
                                   then (i, d\<lparr>employees := map retire (employees c)\<rparr>) else (i, d)) ds"
    using update_one_distinct [OF Cons.prems(1)] by (auto simp: case_prod_unfold)
  have keys: "map fst ?ds1 = map fst ds" unfolding ds1 by (simp add: case_prod_unfold comp_def)
  have d1: "distinct (map fst ?ds1)" unfolding keys by (rule Cons.prems(1))
  have d2: "distinct (map fst sel)" using Cons.prems(2) by simp
  have none: "map_of sel cid = None" using Cons.prems(2) x by (simp add: map_of_eq_None_iff)
  have "foldl ?step ds (x # sel) = foldl ?step ?ds1 sel" using x by simp
  also have "\<dots> = map (\<lambda>(i, d). (case map_of sel i of
                       None \<Rightarrow> (i, d)
                     | Some c \<Rightarrow> if list_ex born_before (employees c)
                                then (i, d\<lparr>employees := map retire (employees c)\<rparr>) else (i, d))) ?ds1"
    by (rule Cons.IH [OF d1 d2])
  also have "\<dots> = map (\<lambda>(i, d). (case map_of (x # sel) i of
                       None \<Rightarrow> (i, d)
                     | Some c \<Rightarrow> if list_ex born_before (employees c)
                                then (i, d\<lparr>employees := map retire (employees c)\<rparr>) else (i, d))) ds"
    unfolding ds1 using none x by (auto simp: case_prod_unfold split: option.splits)
  finally show ?case .
qed

lemma Q3_3_distinct:
  assumes "distinct (map fst coll)"
  shows "Q3_3 coll = map (\<lambda>(k, c). (k, rewritten c)) coll"
proof -
  let ?P = "\<lambda>(cid, company). list_ex (\<lambda>emp. date_lt (dateOfBirth emp) cutoff) (employees company)"
  let ?sel = "filter ?P coll"
  have dsel: "distinct (map fst ?sel)" using assms by (rule distinct_map_filter)
  have "Q3_3 coll = foldl (\<lambda>current (cid, company).
             if list_ex born_before (employees company)
             then update_one cid (\<lambda>d. d\<lparr>employees := map retire (employees company)\<rparr>) current
             else current) coll ?sel"
    unfolding Q3_3_def Q3_3_step ..
  also have "\<dots> = map (\<lambda>(i, d). (case map_of ?sel i of
                       None \<Rightarrow> (i, d)
                     | Some c \<Rightarrow> if list_ex born_before (employees c)
                                then (i, d\<lparr>employees := map retire (employees c)\<rparr>) else (i, d))) coll"
    by (rule fold_updates [OF dsel assms])
  also have "\<dots> = map (\<lambda>(k, c). (k, rewritten c)) coll"
  proof (rule map_cong [OF refl])
    fix x assume xin: "x \<in> set coll"
    obtain i d where x: "x = (i, d)" by (cases x)
    show "(case x of (i, d) \<Rightarrow> (case map_of ?sel i of
                       None \<Rightarrow> (i, d)
                     | Some c \<Rightarrow> if list_ex born_before (employees c)
                                then (i, d\<lparr>employees := map retire (employees c)\<rparr>) else (i, d)))
          = (case x of (k, c) \<Rightarrow> (k, rewritten c))"
    proof (cases "list_ex born_before (employees d)")
      case True
      then have "(i, d) \<in> set ?sel" using xin x by (simp add: born_before_eta)
      then have "map_of ?sel i = Some d" using dsel by simp
      then show ?thesis using True x by (simp add: rewritten_def)
    next
      case False
      have "map_of ?sel i = None"
      proof (rule ccontr)
        assume "map_of ?sel i \<noteq> None"
        then obtain c where "map_of ?sel i = Some c" by auto
        then have "(i, c) \<in> set ?sel" by (rule map_of_SomeD)
        then have "(i, c) \<in> set coll" and old: "list_ex born_before (employees c)"
          by (simp_all add: born_before_eta)
        then have "c = d" using xin x assms by (meson eq_key_imp_eq_value)
        then show False using old False by simp
      qed
      then show ?thesis using False x by (simp add: rewritten_def map_retire_none)
    qed
  qed
  finally show ?thesis .
qed

lemma Q3_1_eq: "Q3_1 coll = map (\<lambda>(k, d). (k, retire1 d)) coll"
  unfolding Q3_1_def
  by (rule map_cong [OF refl])
     (auto simp: retire1_def retire_def born_before_def split: doc1.splits)

lemma Q3_2_eq: "Q3_2 coll = map (\<lambda>(k, p). (k, retire p)) coll"
  unfolding Q3_2_def
  by (rule map_cong [OF refl])
     (auto simp: retire_def born_before_def doc_type2_def)

lemma retire1_idem: "retire1 (retire1 d) = retire1 d"
  by (cases d) (simp_all add: retire1_def retire_idem)

lemma rewritten_idem: "rewritten (rewritten c) = rewritten c"
  by (simp add: rewritten_def retire_idem comp_def)

lemma Q3_1_idem: "Q3_1 (Q3_1 coll) = Q3_1 coll"
  by (simp add: Q3_1_eq comp_def case_prod_unfold retire1_idem)

lemma Q3_2_idem: "Q3_2 (Q3_2 coll) = Q3_2 coll"
  by (simp add: Q3_2_eq comp_def case_prod_unfold retire_idem)

lemma Q3_3_keys: "distinct (map fst coll) \<Longrightarrow> map fst (Q3_3 coll) = map fst coll"
  by (simp add: Q3_3_distinct comp_def case_prod_unfold)

lemma Q3_3_idem:
  assumes "distinct (map fst coll)"
  shows "Q3_3 (Q3_3 coll) = Q3_3 coll"
proof -
  have "distinct (map fst (Q3_3 coll))" using assms by (simp add: Q3_3_keys)
  then have "Q3_3 (Q3_3 coll) = map (\<lambda>(k, c). (k, rewritten c)) (Q3_3 coll)"
    by (rule Q3_3_distinct)
  also have "\<dots> = Q3_3 coll"
    by (simp add: Q3_3_distinct [OF assms] comp_def case_prod_unfold rewritten_idem)
  finally show ?thesis .
qed

lemma persons1_Q3: "persons1 (Q3_1 coll) = map retire (persons1 coll)"
proof (induction coll)
  case Nil
  show ?case by (simp add: persons1_def Q3_1_eq)
next
  case (Cons x coll)
  obtain k d where x: "x = (k, d)" by (cases x)
  from Cons show ?case unfolding x
    by (cases d) (simp_all add: persons1_def Q3_1_eq retire1_def)
qed

lemma persons2_Q3: "persons2 (Q3_2 coll) = map retire (persons2 coll)"
  by (simp add: persons2_def Q3_2_eq comp_def case_prod_unfold)

lemma persons3_Q3:
  "distinct (map fst coll) \<Longrightarrow> persons3 (Q3_3 coll) = map retire (persons3 coll)"
  by (simp add: persons3_def Q3_3_distinct comp_def case_prod_unfold rewritten_def map_concat)

lemma names1_Q4: "names1 (Q4_1 coll) = map (\<lambda>n. n @ '' Company'') (names1 coll)"
proof (induction coll)
  case Nil
  show ?case by (simp add: names1_def Q4_1_def)
next
  case (Cons x coll)
  obtain k d where x: "x = (k, d)" by (cases x)
  from Cons show ?case unfolding x
    by (cases d) (simp_all add: names1_def Q4_1_def)
qed

lemma names2_Q4: "names2 (Q4_2 coll) = map (\<lambda>n. n @ '' Company'') (names2 coll)"
  by (simp add: names2_def Q4_2_def doc_type2_def comp_def case_prod_unfold)

lemma names3_Q4: "names3 (Q4_3 coll) = map (\<lambda>n. n @ '' Company'') (names3 coll)"
  by (simp add: names3_def Q4_3_def comp_def case_prod_unfold)

subsection \<open>The collection after the load phase\<close>

lemma new_person_fields:
  "age (new_person d) = derive_age (d_now_year d) (d_now_month d) (d_now_day d) (d_dob d)"
  "dateOfBirth (new_person d) = d_dob d"
  "fullName (new_person d) = d_name d"
  by (simp_all add: new_person_def)

lemma new_person1_fields:
  "age (new_person1 d k) = age (new_person d)"
  "dateOfBirth (new_person1 d k) = dateOfBirth (new_person d)"
  "fullName (new_person1 d k) = fullName (new_person d)"
  "company_id (new_person1 d k) = k"
  by (simp_all add: new_person1_def new_person_def person.defs person1.defs)

lemma new_person2_fields:
  "age (new_person2 d c) = age (new_person d)"
  "dateOfBirth (new_person2 d c) = dateOfBirth (new_person d)"
  "fullName (new_person2 d c) = fullName (new_person d)"
  "embedded (new_person2 d c) = c"
  by (simp_all add: new_person2_def new_person_def person.defs person2.defs)

lemma new_company3_fields:
  "name (new_company3 c ps) = name c"
  "employees (new_company3 c ps) = ps"
  by (simp_all add: new_company3_def company.defs company3.defs)

lemma map_snd_enumerate: "map snd (enumerate b xs) = xs"
  by (simp add: enumerate_eq_zip)

lemma map_fst_enumerate: "map fst (enumerate b xs) = [b..<b + length xs]"
  by (simp add: enumerate_eq_zip)

lemma documents1_roster:
  "documents1 fake n_people n_companies b
     = map (\<lambda>(i, d). Person (new_person1 d (b + i))) (roster fake n_people n_companies)"
  by (simp add: documents1_def roster_def map_concat comp_def)

lemma documents2_roster:
  "documents2 fake n_people n_companies
     = map (\<lambda>(i, d). new_person2 d (fake_company fake i)) (roster fake n_people n_companies)"
  by (simp add: documents2_def roster_def map_concat comp_def)

lemma roster_index:
  "(i, d) \<in> set (roster fake n_people n_companies) \<Longrightarrow> i < nat n_companies"
  by (auto simp: roster_def py_range_def)

lemma sum_list_nat:
  "(\<And>x. x \<in> set xs \<Longrightarrow> 0 \<le> f x) \<Longrightarrow>
     sum_list (map (\<lambda>x. nat (f x)) xs) = nat (sum_list (map f xs))"
proof (induction xs)
  case Nil
  show ?case by simp
next
  case (Cons x xs)
  have "0 \<le> sum_list (map f xs)" using Cons.prems by (intro sum_list_nonneg) auto
  moreover have "0 \<le> f x" using Cons.prems by simp
  ultimately show ?case using Cons by (simp add: nat_add_distrib)
qed

lemma length_roster:
  assumes "0 \<le> n_people" and "1 \<le> n_companies"
  shows "length (roster fake n_people n_companies) = nat n_people"
proof -
  let ?q = "n_people div n_companies" and ?r = "n_people mod n_companies"
  have q0: "0 \<le> ?q" using assms by (simp add: pos_imp_zdiv_nonneg_iff)
  have nonneg: "\<And>i. 0 \<le> num_employees ?q ?r i" using q0 by (simp add: num_employees_def)
  have "length (roster fake n_people n_companies)
      = sum_list (map (\<lambda>i. nat (num_employees ?q ?r i)) [0..<nat n_companies])"
    by (simp add: roster_def length_concat comp_def staff_def py_range_def)
  also have "\<dots> = nat (sum_list (map (num_employees ?q ?r) [0..<nat n_companies]))"
    using nonneg by (intro sum_list_nat) simp
  also have "sum_list (map (num_employees ?q ?r) [0..<nat n_companies]) = n_people"
  proof -
    have r0: "0 \<le> ?r" and r1: "?r < n_companies" using assms by simp_all
    have "nat ?r < nat n_companies" using r0 r1 by linarith
    then have "min (nat n_companies) (nat ?r) = nat ?r" by simp
    then have "sum_list (map (num_employees ?q ?r) [0..<nat n_companies]) = n_companies * ?q + ?r"
      using assms r0 by (simp add: sum_list_num_employees)
    then show ?thesis by simp
  qed
  finally show ?thesis .
qed

lemma persons1_append: "persons1 (xs @ ys) = persons1 xs @ persons1 ys"
  by (simp add: persons1_def)

lemma persons1_ignores_ids:
  "persons1 coll = concat (map as_person (map snd coll))"
  by (simp add: persons1_def comp_def case_prod_unfold)

lemma as_person_all: "concat (map as_person (map (\<lambda>x. Person (f x)) xs)) = map f xs"
  by (induction xs) simp_all

lemma persons1_loaded:
  "persons1 (enumerate b (companies1 fake n_companies)
              @ enumerate b' (documents1 fake n_people n_companies b))
     = map (\<lambda>(i, d). new_person1 d (b + i)) (roster fake n_people n_companies)"
proof -
  have "concat (map as_person (companies1 fake n_companies)) = []"
    by (simp add: companies1_def comp_def)
  moreover have "concat (map as_person (documents1 fake n_people n_companies b))
      = map (\<lambda>(i, d). new_person1 d (b + i)) (roster fake n_people n_companies)"
    unfolding documents1_roster case_prod_unfold by (rule as_person_all)
  ultimately show ?thesis
    by (simp add: persons1_append persons1_ignores_ids map_snd_enumerate)
qed

lemma persons2_loaded:
  "persons2 (enumerate b (documents2 fake n_people n_companies))
     = map (\<lambda>(i, d). new_person2 d (fake_company fake i)) (roster fake n_people n_companies)"
  by (simp add: persons2_def map_snd_enumerate documents2_roster)

lemma persons3_ignores_ids: "persons3 coll = concat (map employees (map snd coll))"
  by (simp add: persons3_def comp_def case_prod_unfold)

lemma persons3_loaded:
  "persons3 (enumerate b (documents3 fake n_people n_companies))
     = map (\<lambda>(i, d). new_person d) (roster fake n_people n_companies)"
  by (simp add: persons3_ignores_ids map_snd_enumerate documents3_def roster_def
        new_company3_fields comp_def map_concat)

lemma loaded1:
  assumes "1 \<le> n_companies"
  shows "\<exists>dbs. load1 fake n_people n_companies batch_size db0 = Inr dbs
           \<and> find_all lab2_big_data dbs
               = enumerate (next_oid db0) (companies1 fake n_companies)
                 @ enumerate (next_oid db0 + nat n_companies)
                     (documents1 fake n_people n_companies (next_oid db0))"
proof -
  from load1_ok [OF assms refl, of fake n_people batch_size db0]
  obtain dbs batches db2 where
    r: "load1 fake n_people n_companies batch_size db0 = Inr dbs"
       "written (nat (max 1 batch_size)) db2 (documents1 fake n_people n_companies (next_oid db0)) dbs batches"
       "find_all lab2_big_data db2 = enumerate (next_oid db0) (companies1 fake n_companies)"
       "next_oid db2 = next_oid db0 + nat n_companies"
    by blast
  from r(2) have "find_all lab2_big_data dbs = find_all lab2_big_data db2
       @ enumerate (next_oid db2) (documents1 fake n_people n_companies (next_oid db0))"
    by (simp add: written_def)
  then show ?thesis using r(1,3,4) by simp
qed

lemma loaded2:
  assumes "n_companies \<noteq> 0"
  shows "\<exists>dbs. load2 fake n_people n_companies batch_size db0 = Inr dbs
           \<and> find_all lab2_big_data dbs
               = enumerate (next_oid db0) (documents2 fake n_people n_companies)"
proof -
  from load2_ok [OF assms refl, of fake n_people batch_size db0]
  obtain dbs batches where
    r: "load2 fake n_people n_companies batch_size db0 = Inr dbs"
       "written (nat (max 1 batch_size)) (fresh db0) (documents2 fake n_people n_companies) dbs batches"
    by blast
  from r(2) have "find_all lab2_big_data dbs
       = enumerate (next_oid db0) (documents2 fake n_people n_companies)"
    by (simp add: written_def fresh_simps)
  then show ?thesis using r(1) by simp
qed

lemma loaded3:
  assumes "n_companies \<noteq> 0"
  shows "\<exists>dbs. load3 fake n_people n_companies batch_size db0 = Inr dbs
           \<and> find_all lab2_big_data dbs
               = enumerate (next_oid db0) (documents3 fake n_people n_companies)"
proof -
  from load3_ok [OF assms refl, of fake n_people batch_size db0]
  obtain dbs batches where
    r: "load3 fake n_people n_companies batch_size db0 = Inr dbs"
       "written (nat (max 1 batch_size)) (fresh db0) (documents3 fake n_people n_companies) dbs batches"
    by blast
  from r(2) have "find_all lab2_big_data dbs
       = enumerate (next_oid db0) (documents3 fake n_people n_companies)"
    by (simp add: written_def fresh_simps)
  then show ?thesis using r(1) by simp
qed

lemma derive_age_eq:
  "derive_age a b c dob
     = year a - year dob
       - (if month b < month dob \<or> (month b = month dob \<and> day c < day dob) then 1 else 0)"
  by (auto simp: derive_age_def less_prod_def)

lemma roster_demo_3_1: "roster demo 3 1 = [(0, ada), (0, bob), (0, cyd)]"
  by (simp add: roster_def staff_def py_range_def num_employees_def demo_def upt_rec)

text \<open>
  The persons each load phase stores are those of \<open>roster\<close>, and the stored age
  of each is the year of the first clock reading minus the year of birth, minus 1
  exactly when the month of the second reading and the day of the third precede,
  as a pair, the month and day of birth.
\<close>

lemma stored_ages:
  assumes "1 \<le> n_companies"
  shows "\<exists>dbs1 dbs2 dbs3.
           load1 fake n_people n_companies batch_size1 db1 = Inr dbs1
         \<and> load2 fake n_people n_companies batch_size2 db2 = Inr dbs2
         \<and> load3 fake n_people n_companies batch_size3 db3 = Inr dbs3
         \<and> map (\<lambda>p. (dateOfBirth p, age p)) (persons1 (find_all lab2_big_data dbs1))
             = map (\<lambda>(i, d). (d_dob d,
                      year (d_now_year d) - year (d_dob d)
                      - (if month (d_now_month d) < month (d_dob d)
                            \<or> (month (d_now_month d) = month (d_dob d)
                                \<and> day (d_now_day d) < day (d_dob d))
                         then 1 else 0)))
                   (roster fake n_people n_companies)
         \<and> map (\<lambda>p. (dateOfBirth p, age p)) (persons2 (find_all lab2_big_data dbs2))
             = map (\<lambda>p. (dateOfBirth p, age p)) (persons1 (find_all lab2_big_data dbs1))
         \<and> map (\<lambda>p. (dateOfBirth p, age p)) (persons3 (find_all lab2_big_data dbs3))
             = map (\<lambda>p. (dateOfBirth p, age p)) (persons1 (find_all lab2_big_data dbs1))"
proof -
  have nz: "n_companies \<noteq> 0" using assms by simp
  from loaded1 [OF assms, of fake n_people batch_size1 db1] obtain dbs1 where
    l1: "load1 fake n_people n_companies batch_size1 db1 = Inr dbs1"
        "find_all lab2_big_data dbs1
               = enumerate (next_oid db1) (companies1 fake n_companies)
                 @ enumerate (next_oid db1 + nat n_companies)
                     (documents1 fake n_people n_companies (next_oid db1))"
    by blast
  from loaded2 [OF nz, of fake n_people batch_size2 db2] obtain dbs2 where
    l2: "load2 fake n_people n_companies batch_size2 db2 = Inr dbs2"
        "find_all lab2_big_data dbs2
               = enumerate (next_oid db2) (documents2 fake n_people n_companies)"
    by blast
  from loaded3 [OF nz, of fake n_people batch_size3 db3] obtain dbs3 where
    l3: "load3 fake n_people n_companies batch_size3 db3 = Inr dbs3"
        "find_all lab2_big_data dbs3
               = enumerate (next_oid db3) (documents3 fake n_people n_companies)"
    by blast
  let ?F = "\<lambda>(i :: nat, d). (d_dob d,
                      year (d_now_year d) - year (d_dob d)
                      - (if month (d_now_month d) < month (d_dob d)
                            \<or> (month (d_now_month d) = month (d_dob d)
                                \<and> day (d_now_day d) < day (d_dob d))
                         then 1 else (0 :: int)))"
  have a1: "map (\<lambda>p. (dateOfBirth p, age p)) (persons1 (find_all lab2_big_data dbs1))
             = map ?F (roster fake n_people n_companies)"
    unfolding l1(2) persons1_loaded
    by (simp add: comp_def case_prod_unfold new_person1_fields new_person_fields derive_age_eq)
  have a2: "map (\<lambda>p. (dateOfBirth p, age p)) (persons2 (find_all lab2_big_data dbs2))
             = map ?F (roster fake n_people n_companies)"
    unfolding l2(2) persons2_loaded
    by (simp add: comp_def case_prod_unfold new_person2_fields new_person_fields derive_age_eq)
  have a3: "map (\<lambda>p. (dateOfBirth p, age p)) (persons3 (find_all lab2_big_data dbs3))
             = map ?F (roster fake n_people n_companies)"
    unfolding l3(2) persons3_loaded
    by (simp add: comp_def case_prod_unfold new_person_fields derive_age_eq)
  show ?thesis using l1(1) l2(1) l3(1) a1 a2 a3 by auto
qed

lemma derive_age_one_date: "derive_age t t t dob = age_on t dob"
  by (simp add: derive_age_eq age_on_def)

lemma roster_straddle: "roster straddle 1 1 = [(0, eve)]"
  by (simp add: roster_def staff_def py_range_def num_employees_def straddle_def)

subsection \<open>Q1 on the loaded collection\<close>

lemma filter_enumerate_key:
  "filter (\<lambda>(k, x). k = j) (enumerate b xs)
     = (if b \<le> j \<and> j < b + length xs then [(j, xs ! (j - b))] else [])"
proof (induction xs arbitrary: b)
  case Nil
  show ?case by simp
next
  case (Cons x xs)
  show ?case
  proof (cases "j = b")
    case True
    then show ?thesis using Cons.IH [of "Suc b"] by simp
  next
    case False
    then show ?thesis using Cons.IH [of "Suc b"] by (auto simp: Suc_diff_le)
  qed
qed

lemma map_enumerate_snd: "map (\<lambda>p. f (snd p)) (enumerate b xs) = map f xs"
  by (induction xs arbitrary: b) simp_all

lemma length_companies1: "length (companies1 fake n_companies) = nat n_companies"
  by (simp add: companies1_def py_range_def)

lemma nth_companies1:
  "i < nat n_companies \<Longrightarrow> companies1 fake n_companies ! i = Company (fake_company fake i)"
  by (simp add: companies1_def py_range_def)

lemma persons_only:
  "filter (\<lambda>(pid, d). doc_type1 d = ''person'')
      (enumerate b (companies1 fake n_companies) @ enumerate b' (documents1 fake n_people n_companies c))
   = enumerate b' (documents1 fake n_people n_companies c)"
proof -
  have "filter (\<lambda>(pid, d). doc_type1 d = ''person'') (enumerate b (companies1 fake n_companies)) = []"
    by (auto simp: filter_empty_conv companies1_def enumerate_eq_zip dest!: set_zip_rightD)
  moreover have "filter (\<lambda>(pid, d). doc_type1 d = ''person'') (enumerate b' (documents1 fake n_people n_companies c))
      = enumerate b' (documents1 fake n_people n_companies c)"
    by (auto simp: filter_id_conv documents1_roster enumerate_eq_zip dest!: set_zip_rightD)
  ultimately show ?thesis by simp
qed

lemma companies_only:
  "filter (\<lambda>(pid, d). doc_type1 d = ''company'')
      (enumerate b (companies1 fake n_companies) @ enumerate b' (documents1 fake n_people n_companies c))
   = enumerate b (companies1 fake n_companies)"
proof -
  have "filter (\<lambda>(pid, d). doc_type1 d = ''company'') (enumerate b' (documents1 fake n_people n_companies c)) = []"
    by (auto simp: filter_empty_conv documents1_roster enumerate_eq_zip dest!: set_zip_rightD)
  moreover have "filter (\<lambda>(pid, d). doc_type1 d = ''company'') (enumerate b (companies1 fake n_companies))
      = enumerate b (companies1 fake n_companies)"
    by (auto simp: filter_id_conv companies1_def enumerate_eq_zip dest!: set_zip_rightD)
  ultimately show ?thesis by simp
qed

lemma lookup_company:
  assumes "i < nat n_companies"
  shows "filter (\<lambda>(cid, c). cid = b + i)
      (enumerate b (companies1 fake n_companies)
        @ enumerate (b + nat n_companies) (documents1 fake n_people n_companies c))
     = [(b + i, Company (fake_company fake i))]"
  using assms by (simp add: filter_enumerate_key length_companies1 nth_companies1)

lemma Q1_1_loaded:
  "Q1_1 (enumerate b (companies1 fake n_companies)
          @ enumerate (b + nat n_companies) (documents1 fake n_people n_companies b))
     = map (\<lambda>(i, d). (Some (d_name d), Some (name (fake_company fake i))))
           (roster fake n_people n_companies)"
proof -
  let ?coll = "enumerate b (companies1 fake n_companies)
          @ enumerate (b + nat n_companies) (documents1 fake n_people n_companies b)"
  let ?rows = "\<lambda>d. map (\<lambda>(cid, c). (key_fullName d, key_name c))
                       (filter (\<lambda>(cid, c). Some cid = key_company_id d) ?coll)"
  let ?mk = "\<lambda>(i, d). Person (new_person1 d (b + i))"
  have "Q1_1 ?coll = concat (map (\<lambda>(pid, d). ?rows d)
                        (filter (\<lambda>(pid, d). doc_type1 d = ''person'') ?coll))"
    unfolding Q1_1_def Let_def
    by (simp only: map_concat map_map comp_def case_prod_unfold fst_conv snd_conv)
  also have "\<dots> = concat (map (\<lambda>(pid, d). ?rows d)
                        (enumerate (b + nat n_companies) (documents1 fake n_people n_companies b)))"
    by (simp only: persons_only)
  also have "\<dots> = concat (map ?rows (documents1 fake n_people n_companies b))"
  proof -
    have "map (\<lambda>(pid, d). ?rows d) (enumerate (b + nat n_companies) (documents1 fake n_people n_companies b))
        = map ?rows (map snd (enumerate (b + nat n_companies) (documents1 fake n_people n_companies b)))"
      by (simp only: map_map comp_def case_prod_unfold)
    then show ?thesis by (simp only: map_snd_enumerate)
  qed
  also have "\<dots> = concat (map (\<lambda>x. ?rows (?mk x)) (roster fake n_people n_companies))"
    by (simp only: documents1_roster map_map comp_def)
  also have "map (\<lambda>x. ?rows (?mk x)) (roster fake n_people n_companies)
      = map (\<lambda>x. [(Some (d_name (snd x)), Some (name (fake_company fake (fst x))))])
            (roster fake n_people n_companies)"
  proof (rule map_cong [OF refl])
    fix x assume xin: "x \<in> set (roster fake n_people n_companies)"
    obtain i d where x: "x = (i, d)" by (cases x)
    have i: "i < nat n_companies" using xin unfolding x by (rule roster_index)
    have "filter (\<lambda>(cid, c). Some cid = key_company_id (?mk x)) ?coll
        = filter (\<lambda>(cid, c). cid = b + i) ?coll"
      unfolding x by (simp add: new_person1_fields)
    also have "\<dots> = [(b + i, Company (fake_company fake i))]"
      using i by (rule lookup_company)
    finally show "?rows (?mk x) = [(Some (d_name (snd x)), Some (name (fake_company fake (fst x))))]"
      unfolding x by (simp add: new_person1_fields new_person_fields)
  qed
  also have "concat (map (\<lambda>x. [(Some (d_name (snd x)), Some (name (fake_company fake (fst x))))])
            (roster fake n_people n_companies))
      = map (\<lambda>(i, d). (Some (d_name d), Some (name (fake_company fake i))))
           (roster fake n_people n_companies)"
    by (simp add: case_prod_unfold)
  finally show ?thesis .
qed

lemma Q1_2_loaded:
  "Q1_2 (enumerate b (documents2 fake n_people n_companies))
     = map (\<lambda>(i, d). (d_name d, name (fake_company fake i))) (roster fake n_people n_companies)"
proof -
  have "Q1_2 (enumerate b (documents2 fake n_people n_companies))
      = map (\<lambda>p. (fullName p, name (embedded p))) (documents2 fake n_people n_companies)"
    using map_enumerate_snd [of "\<lambda>p. (fullName p, name (embedded p))"
             b "documents2 fake n_people n_companies"]
    by (simp add: Q1_2_def doc_type2_def case_prod_unfold)
  then show ?thesis
    by (simp add: documents2_roster comp_def case_prod_unfold
          new_person2_fields new_person_fields)
qed

lemma Q1_3_loaded:
  "Q1_3 (enumerate b (documents3 fake n_people n_companies))
     = map (\<lambda>(i, d). (d_name d, name (fake_company fake i))) (roster fake n_people n_companies)"
proof -
  have "Q1_3 (enumerate b (documents3 fake n_people n_companies))
      = concat (map (\<lambda>c. map (\<lambda>emp. (fullName emp, name c)) (employees c))
            (documents3 fake n_people n_companies))"
    using map_enumerate_snd [of "\<lambda>c. map (\<lambda>emp. (fullName emp, name c)) (employees c)"
             b "documents3 fake n_people n_companies"]
    by (simp add: Q1_3_def case_prod_unfold)
  then show ?thesis
    by (simp add: documents3_def roster_def comp_def map_concat
          new_company3_fields new_person_fields)
qed

lemma data_generator1_rows:
  assumes "1 \<le> n_companies"
  shows "\<exists>r. data_generator1 fake n_people n_companies batch_size db0 = Inr r
           \<and> Q1_rows r = Q1_1 (enumerate (next_oid db0) (companies1 fake n_companies)
                 @ enumerate (next_oid db0 + nat n_companies)
                     (documents1 fake n_people n_companies (next_oid db0)))
           \<and> Q2_rows r = Q2_1 (enumerate (next_oid db0) (companies1 fake n_companies)
                 @ enumerate (next_oid db0 + nat n_companies)
                     (documents1 fake n_people n_companies (next_oid db0)))"
proof -
  from loaded1 [OF assms, of fake n_people batch_size db0] obtain dbs where
    "load1 fake n_people n_companies batch_size db0 = Inr dbs"
    "find_all lab2_big_data dbs
               = enumerate (next_oid db0) (companies1 fake n_companies)
                 @ enumerate (next_oid db0 + nat n_companies)
                     (documents1 fake n_people n_companies (next_oid db0))"
    by blast
  then show ?thesis by (simp add: data_generator1_def)
qed

lemma data_generator2_rows:
  assumes "n_companies \<noteq> 0"
  shows "\<exists>r. data_generator2 fake n_people n_companies batch_size db0 = Inr r
           \<and> Q1_rows r = Q1_2 (enumerate (next_oid db0) (documents2 fake n_people n_companies))
           \<and> Q2_rows r = Q2_2 (enumerate (next_oid db0) (documents2 fake n_people n_companies))"
proof -
  from loaded2 [OF assms, of fake n_people batch_size db0] obtain dbs where
    "load2 fake n_people n_companies batch_size db0 = Inr dbs"
    "find_all lab2_big_data dbs
               = enumerate (next_oid db0) (documents2 fake n_people n_companies)"
    by blast
  then show ?thesis by (simp add: data_generator2_def)
qed

lemma data_generator3_rows:
  assumes "n_companies \<noteq> 0"
  shows "\<exists>r. data_generator3 fake n_people n_companies batch_size db0 = Inr r
           \<and> Q1_rows r = Q1_3 (enumerate (next_oid db0) (documents3 fake n_people n_companies))
           \<and> Q2_rows r = Q2_3 (enumerate (next_oid db0) (documents3 fake n_people n_companies))"
proof -
  from loaded3 [OF assms, of fake n_people batch_size db0] obtain dbs where
    "load3 fake n_people n_companies batch_size db0 = Inr dbs"
    "find_all lab2_big_data dbs
               = enumerate (next_oid db0) (documents3 fake n_people n_companies)"
    by blast
  then show ?thesis by (simp add: data_generator3_def)
qed

lemma roster_demo_3_2: "roster demo 3 2 = [(0, ada), (0, bob), (1, ada)]"
  by (simp add: roster_def staff_def py_range_def num_employees_def demo_def upt_rec)

subsection \<open>Q2 on the loaded collection\<close>

lemma length_staff:
  "length (staff fake n_people n_companies i)
     = nat (num_employees (n_people div n_companies) (n_people mod n_companies) i)"
  by (simp add: staff_def py_range_def)

lemma total_staff:
  assumes "0 \<le> n_people" and "1 \<le> n_companies"
  shows "sum_list (map (\<lambda>i. nat (num_employees (n_people div n_companies) (n_people mod n_companies) i))
                       [0..<nat n_companies]) = nat n_people"
proof -
  have "sum_list (map (\<lambda>i. nat (num_employees (n_people div n_companies) (n_people mod n_companies) i))
                       [0..<nat n_companies]) = length (roster fake n_people n_companies)"
    by (simp add: roster_def length_concat comp_def length_staff py_range_def)
  then show ?thesis using assms by (simp add: length_roster)
qed

lemma Q2_3_loaded:
  "Q2_3 (enumerate b (documents3 fake n_people n_companies))
     = map (\<lambda>i. (name (fake_company fake i),
                  nat (num_employees (n_people div n_companies) (n_people mod n_companies) i)))
           [0..<nat n_companies]"
proof -
  have "Q2_3 (enumerate b (documents3 fake n_people n_companies))
      = map (\<lambda>c. (name c, length (employees c))) (documents3 fake n_people n_companies)"
    using map_enumerate_snd [of "\<lambda>c. (name c, length (employees c))"
             b "documents3 fake n_people n_companies"]
    by (simp add: Q2_3_def case_prod_unfold)
  then show ?thesis
    by (simp add: documents3_def comp_def new_company3_fields length_staff py_range_def)
qed

lemma filter_block:
  "filter (\<lambda>(i', d). i' = i) (map (Pair n) xs) = (if n = i then map (Pair n) xs else [])"
  by (induction xs) auto

lemma count_block:
  "length (filter (\<lambda>(i', d). i' = i) (concat (map (\<lambda>i'. map (Pair i') (f i')) [0..<n])))
     = (if i < n then length (f i) else 0)"
proof (induction n)
  case 0
  show ?case by simp
next
  case (Suc n)
  then show ?case by (auto simp: filter_block less_Suc_eq)
qed

lemma roster_block_count:
  "i < nat n_companies \<Longrightarrow>
     length (filter (\<lambda>(i', d). i' = i) (roster fake n_people n_companies))
       = length (staff fake n_people n_companies i)"
  unfolding roster_def py_range_def by (simp add: count_block)

lemma enumerate_map_shift:
  "enumerate b (map f [0..<n]) = map (\<lambda>i. (b + i, f i)) [0..<n]"
  by (rule nth_equalityI) (simp_all add: nth_enumerate_eq)

lemma length_filter_enumerate:
  "length (filter (\<lambda>p. P (snd p)) (enumerate b xs)) = length (filter P xs)"
  by (induction xs arbitrary: b) simp_all

lemma employees_of_company:
  assumes "i < nat n_companies"
  shows "length (filter (\<lambda>(pid, p). key_company_id p = Some (b + i))
           (enumerate b (companies1 fake n_companies)
             @ enumerate b' (documents1 fake n_people n_companies b)))
         = nat (num_employees (n_people div n_companies) (n_people mod n_companies) i)"
proof -
  have c: "filter (\<lambda>(pid, p). key_company_id p = Some (b + i)) (enumerate b (companies1 fake n_companies)) = []"
    by (auto simp: filter_empty_conv companies1_def enumerate_eq_zip dest!: set_zip_rightD)
  have "length (filter (\<lambda>(pid, p). key_company_id p = Some (b + i))
                  (enumerate b' (documents1 fake n_people n_companies b)))
      = length (filter (\<lambda>p. key_company_id p = Some (b + i))
                        (documents1 fake n_people n_companies b))"
    using length_filter_enumerate [of "\<lambda>p. key_company_id p = Some (b + i)" b'
             "documents1 fake n_people n_companies b"]
    by (simp add: case_prod_unfold)
  also have "\<dots> = length (filter (\<lambda>(i', d). i' = i) (roster fake n_people n_companies))"
    by (simp add: documents1_roster filter_map comp_def case_prod_unfold new_person1_fields)
  also have "\<dots> = length (staff fake n_people n_companies i)"
    using assms by (rule roster_block_count)
  finally show ?thesis using c by (simp add: length_staff)
qed

lemma Q2_1_loaded:
  "Q2_1 (enumerate b (companies1 fake n_companies)
          @ enumerate b' (documents1 fake n_people n_companies b))
     = map (\<lambda>i. (Some (name (fake_company fake i)),
                  nat (num_employees (n_people div n_companies) (n_people mod n_companies) i)))
           [0..<nat n_companies]"
proof -
  let ?coll = "enumerate b (companies1 fake n_companies)
          @ enumerate b' (documents1 fake n_people n_companies b)"
  let ?count = "\<lambda>cid. length (filter (\<lambda>(pid, p). key_company_id p = Some cid) ?coll)"
  have "Q2_1 ?coll = map (\<lambda>(cid, d). (key_name d, ?count cid))
                         (filter (\<lambda>(cid, d). doc_type1 d = ''company'') ?coll)"
    unfolding Q2_1_def Let_def
    by (simp only: map_map comp_def case_prod_unfold fst_conv snd_conv)
  also have "\<dots> = map (\<lambda>(cid, d). (key_name d, ?count cid)) (enumerate b (companies1 fake n_companies))"
    by (simp only: companies_only)
  also have "\<dots> = map (\<lambda>i. (Some (name (fake_company fake i)), ?count (b + i))) [0..<nat n_companies]"
    by (simp add: companies1_def py_range_def enumerate_map_shift comp_def)
  also have "\<dots> = map (\<lambda>i. (Some (name (fake_company fake i)),
                  nat (num_employees (n_people div n_companies) (n_people mod n_companies) i)))
           [0..<nat n_companies]"
  proof (rule map_cong [OF refl])
    fix i assume "i \<in> set [0..<nat n_companies]"
    then have "i < nat n_companies" by simp
    from employees_of_company [OF this, of b fake b' n_people]
    show "(Some (name (fake_company fake i)), ?count (b + i))
        = (Some (name (fake_company fake i)),
            nat (num_employees (n_people div n_companies) (n_people mod n_companies) i))"
      by (simp only:)
  qed
  finally show ?thesis .
qed

lemma tally_keys: "fst ` set (tally k g) = insert k (fst ` set g)"
  by (induction k g rule: tally.induct) auto

lemma tally_distinct: "distinct (map fst g) \<Longrightarrow> distinct (map fst (tally k g))"
proof (induction k g rule: tally.induct)
  case (1 k)
  show ?case by simp
next
  case (2 k k' n groups)
  then show ?case using tally_keys [of k groups] by (auto simp: image_iff)
qed

lemma tally_map_of:
  "map_of (tally k g) k'
     = (if k' = k then Some (case map_of g k of None \<Rightarrow> 1 | Some c \<Rightarrow> c + 1) else map_of g k')"
  by (induction k g rule: tally.induct) auto

lemma tally_total: "sum_list (map snd (tally k g)) = sum_list (map snd g) + 1"
  by (induction k g rule: tally.induct) auto

lemma group_count_snoc: "group_count (ks @ [k]) = tally k (group_count ks)"
  by (simp add: group_count_def)

lemma group_count_distinct: "distinct (map fst (group_count ks))"
proof (induction ks rule: rev_induct)
  case Nil
  show ?case by (simp add: group_count_def)
next
  case (snoc k ks)
  then show ?case by (simp add: group_count_snoc tally_distinct)
qed

lemma group_count_map_of:
  "map_of (group_count ks) k = (if count_list ks k = 0 then None else Some (count_list ks k))"
proof (induction ks rule: rev_induct)
  case Nil
  show ?case by (simp add: group_count_def)
next
  case (snoc k' ks)
  then show ?case
    by (auto simp: group_count_snoc tally_map_of split: option.splits if_splits)
qed

lemma group_count_total: "sum_list (map snd (group_count ks)) = length ks"
proof (induction ks rule: rev_induct)
  case Nil
  show ?case by (simp add: group_count_def)
next
  case (snoc k ks)
  then show ?case by (simp add: group_count_snoc tally_total)
qed

lemma count_list_const:
  "count_list (map (\<lambda>x. c) ys) k = (if c = k then length ys else 0)"
  by (induction ys) auto

lemma count_names:
  "count_list (map (\<lambda>(i, d). nm i) (concat (map (\<lambda>i. map (Pair i) (f i)) xs))) k
     = sum_list (map (\<lambda>i. if nm i = k then length (f i) else 0) xs)"
proof (induction xs)
  case Nil
  show ?case by simp
next
  case (Cons a xs)
  have "count_list (map (\<lambda>(i, d). nm i) (map (Pair a) (f a))) k = (if nm a = k then length (f a) else 0)"
    using count_list_const [of "nm a" "f a" k] by (simp add: comp_def)
  then show ?case using Cons by simp
qed

lemma Q2_2_loaded:
  "Q2_2 (enumerate b (documents2 fake n_people n_companies))
     = group_count (map (\<lambda>(i, d). name (fake_company fake i)) (roster fake n_people n_companies))"
proof -
  have "Q2_2 (enumerate b (documents2 fake n_people n_companies))
      = group_count (map (\<lambda>p. name (embedded p)) (documents2 fake n_people n_companies))"
    using map_enumerate_snd [of "\<lambda>p. name (embedded p)" b "documents2 fake n_people n_companies"]
    by (simp add: Q2_2_def doc_type2_def case_prod_unfold)
  then show ?thesis
    by (simp add: documents2_roster comp_def case_prod_unfold new_person2_fields)
qed

lemma Q2_2_map_of:
  "map_of (Q2_2 (enumerate b (documents2 fake n_people n_companies))) k
     = (let c = sum_list (map (\<lambda>i. if name (fake_company fake i) = k
                                   then nat (num_employees (n_people div n_companies) (n_people mod n_companies) i)
                                   else 0) [0..<nat n_companies])
        in if c = 0 then None else Some c)"
proof -
  have "count_list (map (\<lambda>(i, d). name (fake_company fake i)) (roster fake n_people n_companies)) k
      = sum_list (map (\<lambda>i. if name (fake_company fake i) = k
                                   then nat (num_employees (n_people div n_companies) (n_people mod n_companies) i)
                                   else 0) [0..<nat n_companies])"
    using count_names [of "\<lambda>i. name (fake_company fake i)" "staff fake n_people n_companies" "[0..<nat n_companies]" k]
    by (simp add: roster_def py_range_def length_staff cong: if_cong)
  then show ?thesis by (simp add: Q2_2_loaded group_count_map_of Let_def)
qed

lemma Q2_2_total:
  assumes "0 \<le> n_people" and "1 \<le> n_companies"
  shows "sum_list (map snd (Q2_2 (enumerate b (documents2 fake n_people n_companies)))) = nat n_people"
  using assms by (simp add: Q2_2_loaded group_count_total length_roster)

lemma sum_none:
  "k \<notin> nm ` set xs \<Longrightarrow> sum_list (map (\<lambda>j. if nm j = k then c j else 0) xs) = (0 :: nat)"
  by (induction xs) auto

lemma sum_single:
  "distinct (map nm xs) \<Longrightarrow> i \<in> set xs \<Longrightarrow>
     sum_list (map (\<lambda>j. if nm j = nm i then c j else 0) xs) = (c i :: nat)"
proof (induction xs)
  case Nil
  then show ?case by simp
next
  case (Cons a xs)
  show ?case
  proof (cases "a = i")
    case True
    then have "nm i \<notin> nm ` set xs" using Cons.prems by auto
    then show ?thesis using True by (simp add: sum_none)
  next
    case False
    then have "i \<in> set xs" using Cons.prems by simp
    moreover have "nm a \<noteq> nm i" using Cons.prems \<open>i \<in> set xs\<close> by auto
    ultimately show ?thesis using Cons by simp
  qed
qed

lemma map_of_rows_none:
  "k \<notin> nm ` set xs \<Longrightarrow> map_of (map (\<lambda>i. (nm i, c i)) xs) k = None"
  by (induction xs) auto

lemma map_of_rows:
  "distinct (map nm xs) \<Longrightarrow> i \<in> set xs \<Longrightarrow> map_of (map (\<lambda>i. (nm i, c i)) xs) (nm i) = Some (c i)"
proof (induction xs)
  case Nil
  then show ?case by simp
next
  case (Cons a xs)
  show ?case
  proof (cases "a = i")
    case True
    then show ?thesis by simp
  next
    case False
    then have "i \<in> set xs" using Cons.prems by simp
    moreover have "nm a \<noteq> nm i" using Cons.prems \<open>i \<in> set xs\<close> by auto
    ultimately show ?thesis using Cons by simp
  qed
qed

lemma Q2_2_mset:
  assumes names: "distinct (map (\<lambda>i. name (fake_company fake i)) [0..<nat n_companies])"
    and "1 \<le> n_companies" and "n_companies \<le> n_people"
  shows "mset (Q2_2 (enumerate b (documents2 fake n_people n_companies)))
       = mset (map (\<lambda>i. (name (fake_company fake i),
                  nat (num_employees (n_people div n_companies) (n_people mod n_companies) i)))
           [0..<nat n_companies])"
proof -
  let ?nm = "\<lambda>i. name (fake_company fake i)"
  let ?c = "\<lambda>i. nat (num_employees (n_people div n_companies) (n_people mod n_companies) i)"
  let ?xs = "[0..<nat n_companies]"
  let ?rows2 = "Q2_2 (enumerate b (documents2 fake n_people n_companies))"
  let ?rows3 = "map (\<lambda>i. (?nm i, ?c i)) ?xs"
  have "n_companies div n_companies \<le> n_people div n_companies"
    using assms(2,3) by (intro zdiv_mono1) auto
  then have "1 \<le> n_people div n_companies" using assms(2) by simp
  then have pos: "\<And>i. 0 < ?c i" by (simp add: num_employees_def)
  have d2: "distinct (map fst ?rows2)" by (simp add: Q2_2_loaded group_count_distinct)
  have d3: "distinct (map fst ?rows3)" using names by (simp add: comp_def)
  have "map_of ?rows2 k = map_of ?rows3 k" for k
  proof (cases "k \<in> ?nm ` set ?xs")
    case True
    then obtain i where i: "i \<in> set ?xs" and k: "k = ?nm i" by blast
    have "sum_list (map (\<lambda>j. if ?nm j = ?nm i then ?c j else 0) ?xs) = ?c i"
      using names i by (rule sum_single)
    then have "map_of ?rows2 k = Some (?c i)"
      unfolding k Q2_2_map_of using pos [of i] by (simp add: Let_def)
    moreover have "map_of ?rows3 k = Some (?c i)"
      unfolding k using names i by (rule map_of_rows)
    ultimately show ?thesis by simp
  next
    case False
    then have "sum_list (map (\<lambda>j. if ?nm j = k then ?c j else 0) ?xs) = 0"
      by (rule sum_none)
    then have "map_of ?rows2 k = None"
      unfolding Q2_2_map_of by (simp add: Let_def)
    moreover have "map_of ?rows3 k = None"
      using False by (rule map_of_rows_none)
    ultimately show ?thesis by simp
  qed
  then have "map_of ?rows2 = map_of ?rows3" by (rule ext)
  then have same: "set ?rows2 = set ?rows3" using map_of_inject_set [OF d2 d3] by blast
  have dr2: "distinct ?rows2" using d2 by (simp only: distinct_map)
  have dr3: "distinct ?rows3" using d3 by (simp only: distinct_map)
  show ?thesis using set_eq_iff_mset_eq_distinct [OF dr2 dr3] same by blast
qed

lemma Inr_projr: "x = Inr r \<Longrightarrow> \<not> isl x \<and> projr x = r"
  by simp

subsection \<open>One step of the writer\<close>

lemma append_flush_step:
  assumes "m = nat (max 1 batch_size)" and "length (buffer w) < m"
  shows "\<exists>w'. append_flush batch_size doc w = Inr w'
           \<and> (if Suc (length (buffer w)) = m
               then buffer w' = [] \<and> insert_calls (store w') = insert_calls (store w) @ [buffer w @ [doc]]
               else buffer w' = buffer w @ [doc] \<and> store w' = store w)"
proof (cases "Suc (length (buffer w)) = m")
  case True
  then have "batch_size \<le> int (length (buffer w @ [doc]))" using assms(1) by auto
  then show ?thesis using True
    by (simp add: append_flush_def insert_many_def Let_def)
next
  case False
  then have "\<not> batch_size \<le> int (length (buffer w @ [doc]))" using assms by auto
  then show ?thesis using False
    by (simp add: append_flush_def Let_def)
qed

lemma length_concat_full:
  "list_all (\<lambda>b. length b = m) batches \<Longrightarrow> length (concat batches) = m * length batches"
  by (induction batches) simp_all

lemma loop_remainder:
  assumes "m = nat (max 1 batch_size)"
  shows "\<exists>w. for_each (append_flush batch_size) docs \<lparr>store = s, buffer = []\<rparr> = Inr w
           \<and> length (buffer w) = length docs mod m"
proof -
  define w0 where "w0 = \<lparr>store = s, buffer = ([] :: 'a list)\<rparr>"
  have "length (buffer w0) < m" using assms by (simp add: w0_def)
  from writer_loop [OF assms this] obtain w batches where
    r: "for_each (append_flush batch_size) docs w0 = Inr w" "flushed m w0 docs w batches"
    by blast
  from r(2) have f: "concat batches @ buffer w = docs" "list_all (\<lambda>b. length b = m) batches"
    "length (buffer w) < m"
    by (simp_all add: flushed_def w0_def)
  have "length docs = m * length batches + length (buffer w)"
    using f(1) length_concat_full [OF f(2)] by (metis length_append)
  then have "length docs mod m = length (buffer w)" using f(3) by simp
  then show ?thesis using r(1) unfolding w0_def by auto
qed

lemma flush_rest_calls:
  "\<exists>dbs. flush_rest w = Inr dbs
     \<and> insert_calls dbs = insert_calls (store w) @ (if buffer w = [] then [] else [buffer w])
     \<and> (buffer w = [] \<longrightarrow> dbs = store w)"
  by (simp add: flush_rest_def insert_many_def Let_def)

lemma written_stored:
  "written m dbs docs dbs' batches \<Longrightarrow>
     map snd (find_all lab2_big_data dbs') = map snd (find_all lab2_big_data dbs) @ docs"
  by (simp add: written_def map_snd_enumerate)

section \<open>The distribution is even\<close>

text \<open>
  C1.  For \<open>n_people \<ge> 0\<close> and \<open>n_companies \<ge> 1\<close> the two divisions do not raise and
  the values \<open>num_employees\<close> takes along the loop form a list of \<open>n_companies\<close>
  entries; entry \<open>i\<close> is \<open>n_people div n_companies + 1\<close> when
  \<open>i < n_people mod n_companies\<close> and \<open>n_people div n_companies\<close> otherwise; no entry is
  negative, the entries add up to \<open>n_people\<close>, and two entries differ by at most 1.
  The list is a function of the two numbers alone: no provider of random values is
  among the arguments of \<open>distribution\<close>.
\<close>

theorem distribution_even:
  assumes "0 \<le> n_people" and "1 \<le> n_companies"
  shows "\<exists>ds. distribution n_people n_companies = Inr ds
           \<and> length ds = nat n_companies
           \<and> (\<forall>i < nat n_companies. ds ! i =
                 (if int i < n_people mod n_companies then n_people div n_companies + 1
                  else n_people div n_companies))
           \<and> (\<forall>d \<in> set ds. 0 \<le> d)
           \<and> sum_list ds = n_people
           \<and> (\<forall>a \<in> set ds. \<forall>b \<in> set ds. \<bar>a - b\<bar> \<le> 1)"
proof -
  let ?q = "n_people div n_companies" and ?r = "n_people mod n_companies"
  let ?ds = "map (num_employees ?q ?r) (py_range n_companies)"
  have nz: "n_companies \<noteq> 0" using assms by simp
  have d: "distribution n_people n_companies = Inr ?ds"
    using nz by (simp add: distribution_def py_floordiv_def py_mod_def)
  have q0: "0 \<le> ?q" using assms by (simp add: pos_imp_zdiv_nonneg_iff)
  have r0: "0 \<le> ?r" and r1: "?r < n_companies" using assms by simp_all
  have len: "length ?ds = nat n_companies" by (simp add: py_range_def)
  have nth: "\<forall>i < nat n_companies. ?ds ! i = (if int i < ?r then ?q + 1 else ?q)"
    by (simp add: py_range_def num_employees_def)
  have nonneg: "\<forall>d \<in> set ?ds. 0 \<le> d" using q0 by (auto simp: num_employees_def)
  have "sum_list ?ds = int (nat n_companies) * ?q + int (min (nat n_companies) (nat ?r))"
    unfolding py_range_def by (rule sum_list_num_employees)
  also have "\<dots> = n_companies * ?q + ?r"
  proof -
    have "nat ?r < nat n_companies" using r0 r1 by linarith
    then have "min (nat n_companies) (nat ?r) = nat ?r" by simp
    then show ?thesis using assms r0 by simp
  qed
  also have "\<dots> = n_people" by simp
  finally have total: "sum_list ?ds = n_people" .
  have diff: "\<forall>a \<in> set ?ds. \<forall>b \<in> set ?ds. \<bar>a - b\<bar> \<le> 1"
    by (auto simp: num_employees_def)
  from d len nth nonneg total diff show ?thesis by blast
qed

theorem distribution_even_witness:
  "(0::int) \<le> 10 \<and> (1::int) \<le> 3 \<and> distribution 10 3 = Inr [4, 3, 3]"
  using distribution_even [of 10 3]
  by (simp add: distribution_def py_floordiv_def py_mod_def py_range_def num_employees_def upt_rec)

section \<open>Q2: employees per company\<close>

text \<open>
  C2 (as amended).  For \<open>n_people \<ge> 0\<close> and \<open>n_companies \<ge> 1\<close> the three
  generators return.  Q2 of models 1 and 3 returned one row for each generated
  company, in the order of generation: its name with the value of
  \<open>num_employees\<close> at its index.  Q2 of model 2 groups the person documents by
  the embedded company name: its rows have distinct names, and the row of a name
  holds the sum of \<open>num_employees\<close> over the companies that bear the name; a
  name whose companies have no employee has no row.  When the generated names are
  pairwise distinct and \<open>n_companies \<le> n_people\<close>, the rows of model 2 are those
  of model 3 up to their order.  In each model the counts add up to \<open>n_people\<close>.
\<close>

theorem Q2_counts_per_company:
  assumes "0 \<le> n_people" and "1 \<le> n_companies"
  shows "\<exists>r1 r2 r3.
           data_generator1 fake n_people n_companies batch_size1 db1 = Inr r1
         \<and> data_generator2 fake n_people n_companies batch_size2 db2 = Inr r2
         \<and> data_generator3 fake n_people n_companies batch_size3 db3 = Inr r3
         \<and> Q2_rows r3 = map (\<lambda>i. (name (fake_company fake i),
                                  nat (num_employees (n_people div n_companies)
                                         (n_people mod n_companies) i)))
                             [0..<nat n_companies]
         \<and> Q2_rows r1 = map (\<lambda>(company_name, n). (Some company_name, n)) (Q2_rows r3)
         \<and> distinct (map fst (Q2_rows r2))
         \<and> (\<forall>k. map_of (Q2_rows r2) k
                = (let c = sum_list (map (\<lambda>i. if name (fake_company fake i) = k
                                             then nat (num_employees (n_people div n_companies)
                                                         (n_people mod n_companies) i)
                                             else 0) [0..<nat n_companies])
                   in if c = 0 then None else Some c))
         \<and> (distinct (map (\<lambda>i. name (fake_company fake i)) [0..<nat n_companies])
              \<and> n_companies \<le> n_people \<longrightarrow> mset (Q2_rows r2) = mset (Q2_rows r3))
         \<and> int (sum_list (map snd (Q2_rows r1))) = n_people
         \<and> int (sum_list (map snd (Q2_rows r2))) = n_people
         \<and> int (sum_list (map snd (Q2_rows r3))) = n_people"
proof -
  have nz: "n_companies \<noteq> 0" using assms by simp
  let ?rows = "map (\<lambda>i. (name (fake_company fake i),
                                  nat (num_employees (n_people div n_companies)
                                         (n_people mod n_companies) i)))
                             [0..<nat n_companies]"
  from data_generator1_rows [OF assms(2), of fake n_people batch_size1 db1] obtain r1 where
    g1: "data_generator1 fake n_people n_companies batch_size1 db1 = Inr r1"
        "Q2_rows r1 = map (\<lambda>i. (Some (name (fake_company fake i)),
                                  nat (num_employees (n_people div n_companies)
                                         (n_people mod n_companies) i)))
                             [0..<nat n_companies]"
    unfolding Q2_1_loaded by blast
  from data_generator2_rows [OF nz, of fake n_people batch_size2 db2] obtain r2 where
    g2: "data_generator2 fake n_people n_companies batch_size2 db2 = Inr r2"
        "Q2_rows r2 = Q2_2 (enumerate (next_oid db2) (documents2 fake n_people n_companies))"
    by blast
  from data_generator3_rows [OF nz, of fake n_people batch_size3 db3] obtain r3 where
    g3: "data_generator3 fake n_people n_companies batch_size3 db3 = Inr r3"
        "Q2_rows r3 = ?rows"
    unfolding Q2_3_loaded by blast
  have c1: "Q2_rows r1 = map (\<lambda>(company_name, n). (Some company_name, n)) (Q2_rows r3)"
    unfolding g1(2) g3(2) by (simp add: comp_def)
  have c2: "distinct (map fst (Q2_rows r2))"
    unfolding g2(2) by (simp add: Q2_2_loaded group_count_distinct)
  have c3: "\<forall>k. map_of (Q2_rows r2) k
                = (let c = sum_list (map (\<lambda>i. if name (fake_company fake i) = k
                                             then nat (num_employees (n_people div n_companies)
                                                         (n_people mod n_companies) i)
                                             else 0) [0..<nat n_companies])
                   in if c = 0 then None else Some c)"
    unfolding g2(2) by (simp only: Q2_2_map_of) simp
  have c4: "distinct (map (\<lambda>i. name (fake_company fake i)) [0..<nat n_companies])
              \<and> n_companies \<le> n_people \<longrightarrow> mset (Q2_rows r2) = mset (Q2_rows r3)"
  proof (intro impI, elim conjE)
    assume names: "distinct (map (\<lambda>i. name (fake_company fake i)) [0..<nat n_companies])"
      and enough: "n_companies \<le> n_people"
    show "mset (Q2_rows r2) = mset (Q2_rows r3)"
      unfolding g2(2) g3(2) using names assms(2) enough by (rule Q2_2_mset)
  qed
  have t: "sum_list (map (\<lambda>i. nat (num_employees (n_people div n_companies) (n_people mod n_companies) i))
                       [0..<nat n_companies]) = nat n_people"
    using assms by (rule total_staff)
  have s1: "int (sum_list (map snd (Q2_rows r1))) = n_people"
    unfolding g1(2) using t assms(1) by (simp add: comp_def)
  have s2: "int (sum_list (map snd (Q2_rows r2))) = n_people"
    unfolding g2(2) using assms by (simp add: Q2_2_total)
  have s3: "int (sum_list (map snd (Q2_rows r3))) = n_people"
    unfolding g3(2) using t assms(1) by (simp add: comp_def)
  show ?thesis
    using g1(1) g2(1) g3 c1 c2 c3 c4 s1 s2 s3 by blast
qed

theorem Q2_counts_per_company_witness:
  "(0 :: int) \<le> 10 \<and> (1 :: int) \<le> 3
   \<and> (\<exists>r1 r2 r3.
           data_generator1 demo 10 3 2000 empty_db = Inr r1
         \<and> data_generator2 demo 10 3 2000 empty_db = Inr r2
         \<and> data_generator3 demo 10 3 100 empty_db = Inr r3
         \<and> Q2_rows r3 = [(''Acme'', 4), (''Bolt'', 3), (''Cog'', 3)]
         \<and> Q2_rows r1 = [(Some ''Acme'', 4), (Some ''Bolt'', 3), (Some ''Cog'', 3)]
         \<and> mset (Q2_rows r2) = mset [(''Acme'', 4), (''Bolt'', 3), (''Cog'', 3)])"
proof -
  have h: "(0 :: int) \<le> 10" "(1 :: int) \<le> 3" by simp_all
  have rows: "map (\<lambda>i. (name (fake_company demo i), nat (num_employees (10 div 3) (10 mod 3) i)))
                  [0..<nat 3] = [(''Acme'', 4), (''Bolt'', 3), (''Cog'', 3)]"
    by (simp add: upt_rec demo_def acme_def num_employees_def)
  have names: "distinct (map (\<lambda>i. name (fake_company demo i)) [0..<nat 3]) \<and> (3 :: int) \<le> 10"
    by (simp add: upt_rec demo_def acme_def)
  from Q2_counts_per_company [OF h, of demo 2000 empty_db 2000 empty_db 100 empty_db]
  obtain r1 r2 r3 where
    r: "data_generator1 demo 10 3 2000 empty_db = Inr r1"
       "data_generator2 demo 10 3 2000 empty_db = Inr r2"
       "data_generator3 demo 10 3 100 empty_db = Inr r3"
       "Q2_rows r3 = map (\<lambda>i. (name (fake_company demo i), nat (num_employees (10 div 3) (10 mod 3) i)))
                  [0..<nat 3]"
       "Q2_rows r1 = map (\<lambda>(company_name, n). (Some company_name, n)) (Q2_rows r3)"
       "distinct (map (\<lambda>i. name (fake_company demo i)) [0..<nat 3]) \<and> (3 :: int) \<le> 10
          \<longrightarrow> mset (Q2_rows r2) = mset (Q2_rows r3)"
    by blast
  have r3: "Q2_rows r3 = [(''Acme'', 4), (''Bolt'', 3), (''Cog'', 3)]"
    using r(4) rows by simp
  have r1: "Q2_rows r1 = [(Some ''Acme'', 4), (Some ''Bolt'', 3), (Some ''Cog'', 3)]"
    unfolding r(5) r3 by simp
  have r2: "mset (Q2_rows r2) = mset [(''Acme'', 4), (''Bolt'', 3), (''Cog'', 3)]"
    using r(6) names r3 by simp
  show ?thesis using h r(1-3) r1 r2 r3 by blast
qed

text \<open>
  Where model 2 departs from the other two.  With no person and one company,
  Q2 of model 2 has no row at all, while model 3 reports the company with 0
  employees.  With two companies of the same name and one employee each, Q2 of
  model 2 has a single row with the count 2, while model 3 reports two rows with
  the count 1.
\<close>

theorem Q2_embedded_single_counterexample:
  "\<not> isl (data_generator2 demo 0 1 2000 empty_db)
   \<and> Q2_rows (projr (data_generator2 demo 0 1 2000 empty_db)) = []
   \<and> \<not> isl (data_generator3 demo 0 1 100 empty_db)
   \<and> Q2_rows (projr (data_generator3 demo 0 1 100 empty_db)) = [(''Acme'', 0)]
   \<and> \<not> isl (data_generator2 twins 2 2 2000 empty_db)
   \<and> Q2_rows (projr (data_generator2 twins 2 2 2000 empty_db)) = [(''Acme'', 2)]
   \<and> \<not> isl (data_generator3 twins 2 2 100 empty_db)
   \<and> Q2_rows (projr (data_generator3 twins 2 2 100 empty_db)) = [(''Acme'', 1), (''Acme'', 1)]"
proof -
  have one: "(1 :: int) \<noteq> 0" and two: "(2 :: int) \<noteq> 0" by simp_all
  from data_generator2_rows [OF one, of demo 0 2000 empty_db] obtain a where
    a: "data_generator2 demo 0 1 2000 empty_db = Inr a"
       "Q2_rows a = Q2_2 (enumerate (next_oid (empty_db :: person2 database)) (documents2 demo 0 1))"
    by blast
  have a2: "Q2_rows a = []"
    unfolding a(2) Q2_2_loaded
    by (simp add: roster_def staff_def py_range_def num_employees_def group_count_def)
  from data_generator3_rows [OF one, of demo 0 100 empty_db] obtain b where
    b: "data_generator3 demo 0 1 100 empty_db = Inr b"
       "Q2_rows b = Q2_3 (enumerate (next_oid (empty_db :: company3 database)) (documents3 demo 0 1))"
    by blast
  have b2: "Q2_rows b = [(''Acme'', 0)]"
    unfolding b(2) Q2_3_loaded by (simp add: num_employees_def demo_def acme_def)
  from data_generator2_rows [OF two, of twins 2 2000 empty_db] obtain c where
    c: "data_generator2 twins 2 2 2000 empty_db = Inr c"
       "Q2_rows c = Q2_2 (enumerate (next_oid (empty_db :: person2 database)) (documents2 twins 2 2))"
    by blast
  have r22: "roster twins 2 2 = [(0, ada), (1, ada)]"
    by (simp add: roster_def staff_def py_range_def num_employees_def upt_rec twins_def)
  have c2: "Q2_rows c = [(''Acme'', 2)]"
    unfolding c(2) Q2_2_loaded r22
    by (simp add: group_count_def twins_def acme_def)
  from data_generator3_rows [OF two, of twins 2 100 empty_db] obtain d where
    d: "data_generator3 twins 2 2 100 empty_db = Inr d"
       "Q2_rows d = Q2_3 (enumerate (next_oid (empty_db :: company3 database)) (documents3 twins 2 2))"
    by blast
  have d2: "Q2_rows d = [(''Acme'', 1), (''Acme'', 1)]"
    unfolding d(2) Q2_3_loaded by (simp add: num_employees_def upt_rec twins_def acme_def)
  show ?thesis
    unfolding a(1) b(1) c(1) d(1) using a2 b2 c2 d2 by simp
qed

section \<open>Q3: the update of ages\<close>

text \<open>
  C3.  Q3 is idempotent in the three models: a second run returns the collection
  the first run left.  After the second run, a person born before 1988-01-01 has
  age 30 and a person born on or after that day has the age the collection held
  before the first run.  In model 3 the stored documents have distinct \<^verbatim>\<open>_id\<close>s,
  as MongoDB guarantees: the loop writes back by \<^verbatim>\<open>_id\<close>.
\<close>

theorem Q3_idempotent:
  "Q3_1 (Q3_1 coll1) = Q3_1 coll1
   \<and> Q3_2 (Q3_2 coll2) = Q3_2 coll2
   \<and> (distinct (map fst coll3) \<longrightarrow> Q3_3 (Q3_3 coll3) = Q3_3 coll3)
   \<and> map (\<lambda>p. (dateOfBirth p, age p)) (persons1 (Q3_1 (Q3_1 coll1)))
       = map (\<lambda>p. (dateOfBirth p, if date_lt (dateOfBirth p) cutoff then 30 else age p)) (persons1 coll1)
   \<and> map (\<lambda>p. (dateOfBirth p, age p)) (persons2 (Q3_2 (Q3_2 coll2)))
       = map (\<lambda>p. (dateOfBirth p, if date_lt (dateOfBirth p) cutoff then 30 else age p)) (persons2 coll2)
   \<and> (distinct (map fst coll3) \<longrightarrow>
       map (\<lambda>p. (dateOfBirth p, age p)) (persons3 (Q3_3 (Q3_3 coll3)))
       = map (\<lambda>p. (dateOfBirth p, if date_lt (dateOfBirth p) cutoff then 30 else age p)) (persons3 coll3))"
proof -
  have r: "\<And>p :: 'a person_scheme. (dateOfBirth (retire p), age (retire p))
         = (dateOfBirth p, if date_lt (dateOfBirth p) cutoff then 30 else age p)"
    by (simp add: retire_def born_before_def)
  have a1: "map (\<lambda>p. (dateOfBirth p, age p)) (persons1 (Q3_1 (Q3_1 coll1)))
       = map (\<lambda>p. (dateOfBirth p, if date_lt (dateOfBirth p) cutoff then 30 else age p)) (persons1 coll1)"
    by (simp add: Q3_1_idem persons1_Q3 comp_def r)
  have a2: "map (\<lambda>p. (dateOfBirth p, age p)) (persons2 (Q3_2 (Q3_2 coll2)))
       = map (\<lambda>p. (dateOfBirth p, if date_lt (dateOfBirth p) cutoff then 30 else age p)) (persons2 coll2)"
    by (simp add: Q3_2_idem persons2_Q3 comp_def r)
  have a3: "distinct (map fst coll3) \<longrightarrow>
       map (\<lambda>p. (dateOfBirth p, age p)) (persons3 (Q3_3 (Q3_3 coll3)))
       = map (\<lambda>p. (dateOfBirth p, if date_lt (dateOfBirth p) cutoff then 30 else age p)) (persons3 coll3)"
    by (simp add: Q3_3_idem persons3_Q3 comp_def r)
  show ?thesis using a1 a2 a3 Q3_1_idem [of coll1] Q3_2_idem [of coll2] Q3_3_idem [of coll3]
    by blast
qed

theorem Q3_idempotent_witness:
  "distinct (map fst sample3)
   \<and> Q3_3 (Q3_3 sample3) = Q3_3 sample3
   \<and> map age (persons3 (Q3_3 (Q3_3 sample3))) = [30, 35]
   \<and> map age (persons2 (Q3_2 (Q3_2 sample2))) = [30, 35]
   \<and> map age (persons1 (Q3_1 (Q3_1 sample1))) = [30, 35]"
proof -
  have d: "distinct (map fst sample3)" by (simp add: sample3_def)
  have facts: "dateOfBirth (new_person ada) = \<lparr>year = 1975, month = 5, day = 1\<rparr>"
     "dateOfBirth (new_person bob) = \<lparr>year = 1990, month = 1, day = 1\<rparr>"
     "age (new_person bob) = 35"
    by (simp_all add: new_person_def ada_def bob_def today_def derive_age_def less_prod_def)
  have cut: "date_lt \<lparr>year = 1975, month = 5, day = 1\<rparr> cutoff"
     "\<not> date_lt \<lparr>year = 1990, month = 1, day = 1\<rparr> cutoff"
    by (simp_all add: date_lt_def cutoff_def less_prod_def)
  have e3: "employees (new_company3 acme ps) = ps" for ps
    by (simp add: new_company3_def company.defs company3.defs)
  have p1: "age (new_person1 d k) = age (new_person d)"
       "dateOfBirth (new_person1 d k) = dateOfBirth (new_person d)" for d k
    by (simp_all add: new_person1_def person.defs person1.defs new_person_def)
  have p2: "age (new_person2 d c) = age (new_person d)"
       "dateOfBirth (new_person2 d c) = dateOfBirth (new_person d)" for d c
    by (simp_all add: new_person2_def person.defs person2.defs new_person_def)
  from Q3_idempotent [of sample1 sample2 sample3] d
  have q: "Q3_3 (Q3_3 sample3) = Q3_3 sample3"
    "map (\<lambda>p. (dateOfBirth p, age p)) (persons1 (Q3_1 (Q3_1 sample1)))
       = map (\<lambda>p. (dateOfBirth p, if date_lt (dateOfBirth p) cutoff then 30 else age p)) (persons1 sample1)"
    "map (\<lambda>p. (dateOfBirth p, age p)) (persons2 (Q3_2 (Q3_2 sample2)))
       = map (\<lambda>p. (dateOfBirth p, if date_lt (dateOfBirth p) cutoff then 30 else age p)) (persons2 sample2)"
    "map (\<lambda>p. (dateOfBirth p, age p)) (persons3 (Q3_3 (Q3_3 sample3)))
       = map (\<lambda>p. (dateOfBirth p, if date_lt (dateOfBirth p) cutoff then 30 else age p)) (persons3 sample3)"
    by blast+
  have snd_map: "map age ps = map snd (map (\<lambda>p. (dateOfBirth p, age p)) ps)" for ps :: "'a person_scheme list"
    by (simp add: comp_def)
  have "map age (persons3 (Q3_3 (Q3_3 sample3))) = [30, 35]"
    unfolding snd_map q(4) by (simp add: persons3_def sample3_def e3 facts cut)
  moreover have "map age (persons2 (Q3_2 (Q3_2 sample2))) = [30, 35]"
    unfolding snd_map q(3) by (simp add: persons2_def sample2_def p2 facts cut)
  moreover have "map age (persons1 (Q3_1 (Q3_1 sample1))) = [30, 35]"
    unfolding snd_map q(2) by (simp add: persons1_def sample1_def p1 facts cut)
  ultimately show ?thesis using d q(1) by simp
qed

text \<open>
  C4.  Q3 keeps the number, the order and the \<^verbatim>\<open>_id\<close> of the documents, leaves
  every company field as it was, and replaces every person \<open>p\<close> by \<open>retire p\<close>:
  the same record with \<open>age\<close> set to 30 when \<open>p\<close> was born before 1988-01-01,
  and \<open>p\<close> itself otherwise.  In model 3 the only field of a company document that
  is written is \<open>employees\<close>, and the list written is the old one with every
  employee replaced by \<open>retire\<close> of it.
\<close>

theorem Q3_only_sets_age:
  "Q3_1 coll1 = map (\<lambda>(k, d). (k, case d of Person p \<Rightarrow> Person (retire p) | Company c \<Rightarrow> Company c)) coll1
   \<and> Q3_2 coll2 = map (\<lambda>(k, p). (k, retire p)) coll2
   \<and> (distinct (map fst coll3) \<longrightarrow>
        Q3_3 coll3 = map (\<lambda>(k, c). (k, c\<lparr>employees := map retire (employees c)\<rparr>)) coll3)"
proof -
  have "Q3_1 coll1 = map (\<lambda>(k, d). (k, case d of Person p \<Rightarrow> Person (retire p) | Company c \<Rightarrow> Company c)) coll1"
    using Q3_1_eq [of coll1] by (simp add: retire1_def)
  moreover have "distinct (map fst coll3) \<longrightarrow>
        Q3_3 coll3 = map (\<lambda>(k, c). (k, c\<lparr>employees := map retire (employees c)\<rparr>)) coll3"
    using Q3_3_distinct [of coll3] by (simp add: rewritten_def)
  ultimately show ?thesis using Q3_2_eq [of coll2] by simp
qed

theorem Q3_only_sets_age_witness:
  "distinct (map fst sample3)
   \<and> map age (persons3 sample3) = [50, 35]
   \<and> map age (persons3 (Q3_3 sample3)) = [30, 35]
   \<and> map age (persons2 (Q3_2 sample2)) = [30, 35]
   \<and> map age (persons1 (Q3_1 sample1)) = [30, 35]"
proof -
  have d: "distinct (map fst sample3)" by (simp add: sample3_def)
  have ages: "age (new_person ada) = 50" "age (new_person bob) = 35"
     "born_before (new_person ada)" "\<not> born_before (new_person bob)"
    by (simp_all add: new_person_def ada_def bob_def today_def derive_age_def born_before_def
          date_lt_def cutoff_def less_prod_def)
  have e3: "employees (new_company3 acme ps) = ps" for ps
    by (simp add: new_company3_def company.defs company3.defs)
  have s3: "map age (persons3 sample3) = [50, 35]"
    by (simp add: persons3_def sample3_def e3 ages)
  have p1: "age (new_person1 d k) = age (new_person d)"
       "born_before (new_person1 d k) = born_before (new_person d)" for d k
    by (simp_all add: new_person1_def person.defs person1.defs born_before_def new_person_def)
  have p2: "age (new_person2 d c) = age (new_person d)"
       "born_before (new_person2 d c) = born_before (new_person d)" for d c
    by (simp_all add: new_person2_def person.defs person2.defs born_before_def new_person_def)
  from Q3_only_sets_age [of sample1 sample2 sample3] d
  have q: "Q3_1 sample1 = map (\<lambda>(k, d). (k, case d of Person p \<Rightarrow> Person (retire p) | Company c \<Rightarrow> Company c)) sample1"
    "Q3_2 sample2 = map (\<lambda>(k, p). (k, retire p)) sample2"
    "Q3_3 sample3 = map (\<lambda>(k, c). (k, c\<lparr>employees := map retire (employees c)\<rparr>)) sample3"
    by simp_all
  have "map age (persons3 (Q3_3 sample3)) = [30, 35]"
    unfolding q(3) by (simp add: persons3_def sample3_def e3 retire_def ages)
  moreover have "map age (persons2 (Q3_2 sample2)) = [30, 35]"
    unfolding q(2) by (simp add: persons2_def sample2_def retire_def ages p2)
  moreover have "map age (persons1 (Q3_1 sample1)) = [30, 35]"
    unfolding q(1) by (simp add: persons1_def sample1_def retire_def ages p1)
  ultimately show ?thesis using d s3 by simp
qed

section \<open>Q4: the suffix of company names\<close>

text \<open>
  C5.  One run of Q4 appends \<open>'' Company''\<close> to every stored company name: the
  name of every company document in models 1 and 3, the embedded name of every
  person document in model 2 (two persons of one company hold two copies, and
  each copy gets the suffix).  Two runs append it twice: \<open>''Acme''\<close> becomes
  \<open>''Acme Company''\<close> and then \<open>''Acme Company Company''\<close>.
\<close>

theorem Q4_appends_suffix:
  "names1 (Q4_1 coll1) = map (\<lambda>n. n @ '' Company'') (names1 coll1)
   \<and> names2 (Q4_2 coll2) = map (\<lambda>n. n @ '' Company'') (names2 coll2)
   \<and> names3 (Q4_3 coll3) = map (\<lambda>n. n @ '' Company'') (names3 coll3)
   \<and> names1 (Q4_1 (Q4_1 coll1)) = map (\<lambda>n. n @ '' Company Company'') (names1 coll1)
   \<and> names2 (Q4_2 (Q4_2 coll2)) = map (\<lambda>n. n @ '' Company Company'') (names2 coll2)
   \<and> names3 (Q4_3 (Q4_3 coll3)) = map (\<lambda>n. n @ '' Company Company'') (names3 coll3)"
  by (simp add: names1_Q4 names2_Q4 names3_Q4 comp_def)

theorem Q4_appends_suffix_witness:
  "names1 sample1 = [''Acme''] \<and> names1 (Q4_1 sample1) = [''Acme Company'']
   \<and> names1 (Q4_1 (Q4_1 sample1)) = [''Acme Company Company'']
   \<and> names2 sample2 = [''Acme'', ''Acme'']
   \<and> names2 (Q4_2 sample2) = [''Acme Company'', ''Acme Company'']
   \<and> names2 (Q4_2 (Q4_2 sample2)) = [''Acme Company Company'', ''Acme Company Company'']
   \<and> names3 sample3 = [''Acme''] \<and> names3 (Q4_3 sample3) = [''Acme Company'']
   \<and> names3 (Q4_3 (Q4_3 sample3)) = [''Acme Company Company'']"
proof -
  have n1: "names1 sample1 = [''Acme'']"
    by (simp add: names1_def sample1_def acme_def)
  have n2: "names2 sample2 = [''Acme'', ''Acme'']"
    by (simp add: names2_def sample2_def acme_def new_person2_def person.defs person2.defs)
  have n3: "names3 sample3 = [''Acme'']"
    by (simp add: names3_def sample3_def acme_def new_company3_def company.defs company3.defs)
  show ?thesis
    using Q4_appends_suffix [of sample1 sample2 sample3] by (simp add: n1 n2 n3)
qed

section \<open>Q1: one row for each person\<close>

text \<open>
  C6.  For \<open>n_people \<ge> 0\<close> and \<open>n_companies \<ge> 1\<close> the three generators return,
  and Q1 returned one row for each generated person, in the order of generation:
  the person's full name with the name of the company the person was generated
  for.  Models 2 and 3 return the same rows, model 1 the same rows with both
  fields present, and each result has \<open>n_people\<close> rows.
\<close>

theorem Q1_one_row_per_person:
  assumes "0 \<le> n_people" and "1 \<le> n_companies"
  shows "\<exists>r1 r2 r3.
           data_generator1 fake n_people n_companies batch_size1 db1 = Inr r1
         \<and> data_generator2 fake n_people n_companies batch_size2 db2 = Inr r2
         \<and> data_generator3 fake n_people n_companies batch_size3 db3 = Inr r3
         \<and> Q1_rows r2 = map (\<lambda>(i, d). (d_name d, name (fake_company fake i)))
                             (roster fake n_people n_companies)
         \<and> Q1_rows r3 = Q1_rows r2
         \<and> Q1_rows r1 = map (\<lambda>(full_name, company_name). (Some full_name, Some company_name))
                             (Q1_rows r2)
         \<and> int (length (Q1_rows r1)) = n_people
         \<and> int (length (Q1_rows r2)) = n_people
         \<and> int (length (Q1_rows r3)) = n_people"
proof -
  have nz: "n_companies \<noteq> 0" using assms by simp
  from data_generator1_rows [OF assms(2), of fake n_people batch_size1 db1] obtain r1 where
    g1: "data_generator1 fake n_people n_companies batch_size1 db1 = Inr r1"
        "Q1_rows r1 = map (\<lambda>(i, d). (Some (d_name d), Some (name (fake_company fake i))))
                          (roster fake n_people n_companies)"
    unfolding Q1_1_loaded by blast
  from data_generator2_rows [OF nz, of fake n_people batch_size2 db2] obtain r2 where
    g2: "data_generator2 fake n_people n_companies batch_size2 db2 = Inr r2"
        "Q1_rows r2 = map (\<lambda>(i, d). (d_name d, name (fake_company fake i)))
                          (roster fake n_people n_companies)"
    unfolding Q1_2_loaded by blast
  from data_generator3_rows [OF nz, of fake n_people batch_size3 db3] obtain r3 where
    g3: "data_generator3 fake n_people n_companies batch_size3 db3 = Inr r3"
        "Q1_rows r3 = map (\<lambda>(i, d). (d_name d, name (fake_company fake i)))
                          (roster fake n_people n_companies)"
    unfolding Q1_3_loaded by blast
  have len: "int (length (roster fake n_people n_companies)) = n_people"
    using assms by (simp add: length_roster)
  have "Q1_rows r1 = map (\<lambda>(full_name, company_name). (Some full_name, Some company_name))
                             (Q1_rows r2)"
    unfolding g1(2) g2(2) by (simp add: comp_def case_prod_unfold)
  moreover have "int (length (Q1_rows r1)) = n_people" unfolding g1(2) using len by simp
  moreover have "int (length (Q1_rows r2)) = n_people" unfolding g2(2) using len by simp
  moreover have "int (length (Q1_rows r3)) = n_people" unfolding g3(2) using len by simp
  ultimately show ?thesis using g1(1) g2 g3 by auto
qed

theorem Q1_one_row_per_person_witness:
  "(0 :: int) \<le> 3 \<and> (1 :: int) \<le> 2
   \<and> (\<exists>r1 r2 r3.
           data_generator1 demo 3 2 2000 empty_db = Inr r1
         \<and> data_generator2 demo 3 2 2000 empty_db = Inr r2
         \<and> data_generator3 demo 3 2 100 empty_db = Inr r3
         \<and> Q1_rows r2 = [(''Ada Lovelace'', ''Acme''), (''Bob Noyce'', ''Acme''),
                          (''Ada Lovelace'', ''Bolt'')]
         \<and> Q1_rows r3 = Q1_rows r2
         \<and> Q1_rows r1 = [(Some ''Ada Lovelace'', Some ''Acme''), (Some ''Bob Noyce'', Some ''Acme''),
                          (Some ''Ada Lovelace'', Some ''Bolt'')])"
proof -
  have h: "(0 :: int) \<le> 3" "(1 :: int) \<le> 2" by simp_all
  have names: "name (fake_company demo 0) = ''Acme''" "name (fake_company demo (Suc 0)) = ''Bolt''"
    "d_name ada = ''Ada Lovelace''" "d_name bob = ''Bob Noyce''"
    by (simp_all add: demo_def acme_def ada_def bob_def)
  from Q1_one_row_per_person [OF h, of demo 2000 empty_db 2000 empty_db 100 empty_db]
  obtain r1 r2 r3 where
    r: "data_generator1 demo 3 2 2000 empty_db = Inr r1"
       "data_generator2 demo 3 2 2000 empty_db = Inr r2"
       "data_generator3 demo 3 2 100 empty_db = Inr r3"
       "Q1_rows r2 = map (\<lambda>(i, d). (d_name d, name (fake_company demo i))) (roster demo 3 2)"
       "Q1_rows r3 = Q1_rows r2"
       "Q1_rows r1 = map (\<lambda>(full_name, company_name). (Some full_name, Some company_name))
                             (Q1_rows r2)"
    by blast
  have r2: "Q1_rows r2 = [(''Ada Lovelace'', ''Acme''), (''Bob Noyce'', ''Acme''),
                          (''Ada Lovelace'', ''Bolt'')]"
    unfolding r(4) roster_demo_3_2 by (simp add: names)
  have r1: "Q1_rows r1 = [(Some ''Ada Lovelace'', Some ''Acme''), (Some ''Bob Noyce'', Some ''Acme''),
                          (Some ''Ada Lovelace'', Some ''Bolt'')]"
    unfolding r(6) r2 by simp
  show ?thesis using h r(1-3) r2 r(5) r1 by blast
qed

section \<open>The stored age\<close>

text \<open>
  C7.  The stored age is meant to be \<open>age_on\<close> of the date of generation.  The
  generators do not take that date once: the expression reads the clock three
  times, for the year, the month and the day (\<open>stored_ages\<close> gives the age they
  store for any three readings, and \<open>derive_age_one_date\<close> shows it is \<open>age_on\<close>
  when the three readings show one date).  When midnight of 2025-12-31 passes
  between the first and the second reading, a person born on 1990-06-15 is
  stored with the age 34 by each of the three models, while the age on
  2025-12-31 and the age on 2026-01-01 are both 35.
\<close>

theorem stored_age_straddles_midnight:
  "\<not> isl (load1 straddle 1 1 2000 empty_db)
   \<and> map age (persons1 (find_all lab2_big_data (projr (load1 straddle 1 1 2000 empty_db)))) = [34]
   \<and> \<not> isl (load2 straddle 1 1 2000 empty_db)
   \<and> map age (persons2 (find_all lab2_big_data (projr (load2 straddle 1 1 2000 empty_db)))) = [34]
   \<and> \<not> isl (load3 straddle 1 1 100 empty_db)
   \<and> map age (persons3 (find_all lab2_big_data (projr (load3 straddle 1 1 100 empty_db)))) = [34]
   \<and> age_on new_years_eve (d_dob eve) = 35
   \<and> age_on new_years_day (d_dob eve) = 35"
proof -
  have one: "(1 :: int) \<le> 1" by simp
  have snd_map: "map age ps = map snd (map (\<lambda>p. (dateOfBirth p, age p)) ps)"
    for ps :: "'a person_scheme list"
    by (simp add: comp_def)
  from stored_ages [OF one, of straddle 1 2000 empty_db 2000 empty_db 100 empty_db]
  obtain dbs1 dbs2 dbs3 where
    r: "load1 straddle 1 1 2000 empty_db = Inr dbs1"
       "load2 straddle 1 1 2000 empty_db = Inr dbs2"
       "load3 straddle 1 1 100 empty_db = Inr dbs3"
       "map (\<lambda>p. (dateOfBirth p, age p)) (persons1 (find_all lab2_big_data dbs1))
          = [(d_dob eve, 34)]"
       "map (\<lambda>p. (dateOfBirth p, age p)) (persons2 (find_all lab2_big_data dbs2))
             = map (\<lambda>p. (dateOfBirth p, age p)) (persons1 (find_all lab2_big_data dbs1))"
       "map (\<lambda>p. (dateOfBirth p, age p)) (persons3 (find_all lab2_big_data dbs3))
             = map (\<lambda>p. (dateOfBirth p, age p)) (persons1 (find_all lab2_big_data dbs1))"
    unfolding roster_straddle
    by (auto simp: eve_def new_years_eve_def new_years_day_def)
  have a1: "map age (persons1 (find_all lab2_big_data dbs1)) = [34]"
    unfolding snd_map r(4) by simp
  have a2: "map age (persons2 (find_all lab2_big_data dbs2)) = [34]"
    unfolding snd_map r(5) r(4) by simp
  have a3: "map age (persons3 (find_all lab2_big_data dbs3)) = [34]"
    unfolding snd_map r(6) r(4) by simp
  have c: "age_on new_years_eve (d_dob eve) = 35" "age_on new_years_day (d_dob eve) = 35"
    by (simp_all add: age_on_def eve_def new_years_eve_def new_years_day_def)
  show ?thesis unfolding r(1-3) using a1 a2 a3 c by simp
qed

section \<open>The batches of the load phase\<close>

text \<open>
  C8 (as amended).  Let \<open>m\<close> be \<open>batch_size\<close> when it is at least 1, and 1
  otherwise.  One pass through \<^verbatim>\<open>buffer.append\<close> and the batch check, entered with
  fewer than \<open>m\<close> buffered documents, flushes and clears the buffer exactly when
  the appended buffer holds \<open>m\<close> documents, in one \<^verbatim>\<open>insert_many\<close> call that
  carries the whole buffer, and otherwise keeps the appended buffer and leaves the
  store alone.  Started on the empty buffer, the loop over any list of documents
  ends with \<open>length docs mod m\<close> buffered documents, so the buffer holds fewer than
  \<open>m\<close> documents between iterations and at most \<open>m\<close> within one.  The flush
  after the loop is one \<^verbatim>\<open>insert_many\<close> call on a buffer that is not empty and
  no call, with the store unchanged, on an empty one.  With at least one company
  the load phase of each model returns; the \<^verbatim>\<open>insert_many\<close> calls it makes
  through the buffer carry the generated documents in order, each once; every
  batch but the last has \<open>m\<close> documents, the last has between 1 and \<open>m\<close>; and
  the collection holds exactly the inserted documents.  (Model 1 first inserts
  the companies in one call of their own.)
\<close>

theorem batched_writer:
  assumes "1 \<le> n_companies" and "m = nat (max 1 batch_size)"
  shows "(\<forall>doc w. length (buffer w) < m \<longrightarrow>
            (\<exists>w'. append_flush batch_size doc w = Inr w'
               \<and> (if Suc (length (buffer w)) = m
                   then buffer w' = []
                        \<and> insert_calls (store w') = insert_calls (store w) @ [buffer w @ [doc]]
                   else buffer w' = buffer w @ [doc] \<and> store w' = store w)))
       \<and> (\<forall>docs s. \<exists>w. for_each (append_flush batch_size) docs \<lparr>store = s, buffer = []\<rparr> = Inr w
                      \<and> length (buffer w) = length docs mod m)
       \<and> (\<forall>w. \<exists>dbs. flush_rest w = Inr dbs
                  \<and> insert_calls dbs
                      = insert_calls (store w) @ (if buffer w = [] then [] else [buffer w])
                  \<and> (buffer w = [] \<longrightarrow> dbs = store w))
       \<and> (\<exists>dbs batches.
              load1 fake n_people n_companies batch_size db1 = Inr dbs
            \<and> insert_calls dbs = insert_calls db1 @ companies1 fake n_companies # batches
            \<and> concat batches = documents1 fake n_people n_companies (next_oid db1)
            \<and> list_all (\<lambda>b. length b = m) (butlast batches)
            \<and> list_all (\<lambda>b. 0 < length b \<and> length b \<le> m) batches
            \<and> map snd (find_all lab2_big_data dbs) = companies1 fake n_companies @ concat batches)
       \<and> (\<exists>dbs batches.
              load2 fake n_people n_companies batch_size db2 = Inr dbs
            \<and> insert_calls dbs = insert_calls db2 @ batches
            \<and> concat batches = documents2 fake n_people n_companies
            \<and> list_all (\<lambda>b. length b = m) (butlast batches)
            \<and> list_all (\<lambda>b. 0 < length b \<and> length b \<le> m) batches
            \<and> map snd (find_all lab2_big_data dbs) = concat batches)
       \<and> (\<exists>dbs batches.
              load3 fake n_people n_companies batch_size db3 = Inr dbs
            \<and> insert_calls dbs = insert_calls db3 @ batches
            \<and> concat batches = documents3 fake n_people n_companies
            \<and> list_all (\<lambda>b. length b = m) (butlast batches)
            \<and> list_all (\<lambda>b. 0 < length b \<and> length b \<le> m) batches
            \<and> map snd (find_all lab2_big_data dbs) = concat batches)"
proof -
  have nz: "n_companies \<noteq> 0" using assms(1) by simp
  have step: "\<forall>doc w. length (buffer w) < m \<longrightarrow>
            (\<exists>w'. append_flush batch_size doc w = Inr w'
               \<and> (if Suc (length (buffer w)) = m
                   then buffer w' = []
                        \<and> insert_calls (store w') = insert_calls (store w) @ [buffer w @ [doc]]
                   else buffer w' = buffer w @ [doc] \<and> store w' = store w))"
    by (intro allI impI) (rule append_flush_step [OF assms(2)], assumption)
  have loop: "\<forall>docs s. \<exists>w. for_each (append_flush batch_size) docs \<lparr>store = s, buffer = []\<rparr> = Inr w
                      \<and> length (buffer w) = length docs mod m"
    by (intro allI) (rule loop_remainder [OF assms(2)])
  have rest: "\<forall>w. \<exists>dbs. flush_rest w = Inr dbs
                  \<and> insert_calls dbs
                      = insert_calls (store w) @ (if buffer w = [] then [] else [buffer w])
                  \<and> (buffer w = [] \<longrightarrow> dbs = store w)"
    by (intro allI) (rule flush_rest_calls)
  have l1: "\<exists>dbs batches.
              load1 fake n_people n_companies batch_size db1 = Inr dbs
            \<and> insert_calls dbs = insert_calls db1 @ companies1 fake n_companies # batches
            \<and> concat batches = documents1 fake n_people n_companies (next_oid db1)
            \<and> list_all (\<lambda>b. length b = m) (butlast batches)
            \<and> list_all (\<lambda>b. 0 < length b \<and> length b \<le> m) batches
            \<and> map snd (find_all lab2_big_data dbs) = companies1 fake n_companies @ concat batches"
  proof -
    from load1_ok [OF assms, of fake n_people db1] obtain dbs batches mid where
      r: "load1 fake n_people n_companies batch_size db1 = Inr dbs"
         "written m mid (documents1 fake n_people n_companies (next_oid db1)) dbs batches"
         "find_all lab2_big_data mid = enumerate (next_oid db1) (companies1 fake n_companies)"
         "insert_calls mid = insert_calls db1 @ [companies1 fake n_companies]"
      by blast
    from r(2) have w: "insert_calls dbs = insert_calls mid @ batches"
        "concat batches = documents1 fake n_people n_companies (next_oid db1)"
        "list_all (\<lambda>b. length b = m) (butlast batches)"
        "list_all (\<lambda>b. 0 < length b \<and> length b \<le> m) batches"
      by (simp_all add: written_def)
    have "map snd (find_all lab2_big_data dbs) = companies1 fake n_companies @ concat batches"
      using written_stored [OF r(2)] r(3) w(2) by (simp add: map_snd_enumerate)
    moreover have "insert_calls dbs = insert_calls db1 @ companies1 fake n_companies # batches"
      using w(1) r(4) by simp
    ultimately show ?thesis using r(1) w(2-4) by (intro exI conjI)
  qed
  have l2: "\<exists>dbs batches.
              load2 fake n_people n_companies batch_size db2 = Inr dbs
            \<and> insert_calls dbs = insert_calls db2 @ batches
            \<and> concat batches = documents2 fake n_people n_companies
            \<and> list_all (\<lambda>b. length b = m) (butlast batches)
            \<and> list_all (\<lambda>b. 0 < length b \<and> length b \<le> m) batches
            \<and> map snd (find_all lab2_big_data dbs) = concat batches"
  proof -
    from load2_ok [OF nz assms(2), of fake n_people db2] obtain dbs batches where
      r: "load2 fake n_people n_companies batch_size db2 = Inr dbs"
         "written m (fresh db2) (documents2 fake n_people n_companies) dbs batches"
      by blast
    from r(2) have w: "insert_calls dbs = insert_calls db2 @ batches"
        "concat batches = documents2 fake n_people n_companies"
        "list_all (\<lambda>b. length b = m) (butlast batches)"
        "list_all (\<lambda>b. 0 < length b \<and> length b \<le> m) batches"
      by (simp_all add: written_def fresh_simps)
    have "map snd (find_all lab2_big_data dbs) = concat batches"
      using written_stored [OF r(2)] w(2) by (simp add: fresh_simps)
    then show ?thesis using r(1) w by (intro exI conjI)
  qed
  have l3: "\<exists>dbs batches.
              load3 fake n_people n_companies batch_size db3 = Inr dbs
            \<and> insert_calls dbs = insert_calls db3 @ batches
            \<and> concat batches = documents3 fake n_people n_companies
            \<and> list_all (\<lambda>b. length b = m) (butlast batches)
            \<and> list_all (\<lambda>b. 0 < length b \<and> length b \<le> m) batches
            \<and> map snd (find_all lab2_big_data dbs) = concat batches"
  proof -
    from load3_ok [OF nz assms(2), of fake n_people db3] obtain dbs batches where
      r: "load3 fake n_people n_companies batch_size db3 = Inr dbs"
         "written m (fresh db3) (documents3 fake n_people n_companies) dbs batches"
      by blast
    from r(2) have w: "insert_calls dbs = insert_calls db3 @ batches"
        "concat batches = documents3 fake n_people n_companies"
        "list_all (\<lambda>b. length b = m) (butlast batches)"
        "list_all (\<lambda>b. 0 < length b \<and> length b \<le> m) batches"
      by (simp_all add: written_def fresh_simps)
    have "map snd (find_all lab2_big_data dbs) = concat batches"
      using written_stored [OF r(2)] w(2) by (simp add: fresh_simps)
    then show ?thesis using r(1) w by (intro exI conjI)
  qed
  from step loop rest l1 l2 l3 show ?thesis by (intro conjI)
qed

theorem batched_writer_witness:
  "(1 :: int) \<le> 3 \<and> (2 :: nat) = nat (max 1 2)
   \<and> (\<exists>dbs batches.
          load3 demo 3 3 2 empty_db = Inr dbs
        \<and> insert_calls dbs = batches
        \<and> concat batches = documents3 demo 3 3
        \<and> map length batches = [2, 1]
        \<and> map snd (find_all lab2_big_data dbs) = documents3 demo 3 3)"
proof -
  have h: "(1 :: int) \<le> 3" "(2 :: nat) = nat (max 1 2)" by simp_all
  note l3 = batched_writer [OF h, where fake = demo and n_people = 3 and ?db3.0 = empty_db,
      THEN conjunct2, THEN conjunct2, THEN conjunct2, THEN conjunct2, THEN conjunct2]
  from l3 obtain dbs batches where
    r: "load3 demo 3 3 2 empty_db = Inr dbs"
       "insert_calls dbs = insert_calls (empty_db :: company3 database) @ batches"
       "concat batches = documents3 demo 3 3"
       "map snd (find_all lab2_big_data dbs) = concat batches"
    by (elim exE conjE) (rule that)
  have e: "map length (insert_calls (projr (load3 demo 3 3 2 empty_db))) = [2, 1]"
    by (simp add: load3_def create_collection_def drop_collection_def py_floordiv_def py_mod_def
        py_range_def num_employees_def append_flush_def flush_rest_def insert_many_def Let_def
        find_all_def empty_db_def upt_rec)
  have b: "insert_calls dbs = batches" using r(2) by (simp add: empty_db_def)
  from e have "map length (insert_calls dbs) = [2, 1]" unfolding r(1) by simp
  then have "map length batches = [2, 1]" unfolding b .
  then have "\<exists>dbs batches.
          load3 demo 3 3 2 empty_db = Inr dbs
        \<and> insert_calls dbs = batches
        \<and> concat batches = documents3 demo 3 3
        \<and> map length batches = [2, 1]
        \<and> map snd (find_all lab2_big_data dbs) = documents3 demo 3 3"
    using r(1,3,4) b by (intro exI [of _ dbs] exI [of _ batches] conjI) simp_all
  with h show ?thesis by (intro conjI)
qed

text \<open>
  With \<^verbatim>\<open>batch_size = 0\<close> the test \<^verbatim>\<open>len(buffer) >= batch_size\<close> holds after
  every append: each document is flushed alone, in a batch of one document, which
  is more than \<open>batch_size\<close>.
\<close>

theorem batch_size_zero_counterexample:
  "\<not> isl (load3 demo 1 1 0 empty_db)
   \<and> map length (insert_calls (projr (load3 demo 1 1 0 empty_db))) = [1]
   \<and> \<not> isl (load2 demo 1 1 0 empty_db)
   \<and> map length (insert_calls (projr (load2 demo 1 1 0 empty_db))) = [1]"
  by (simp add: load3_def load2_def create_collection_def drop_collection_def py_floordiv_def
        py_mod_def py_range_def num_employees_def append_flush_def flush_rest_def insert_many_def
        Let_def find_all_def empty_db_def)

section \<open>A run without companies\<close>

text \<open>
  C9.  With \<open>n_companies = 0\<close> every generator raises, whatever \<open>n_people\<close>, the
  batch size and the database are.  \<^verbatim>\<open>model2.py\<close> and \<^verbatim>\<open>model3.py\<close> raise
  \<open>ZeroDivisionError\<close> at \<^verbatim>\<open>n_people // n_companies\<close>; \<^verbatim>\<open>model1.py\<close> raises
  earlier, at \<^verbatim>\<open>insert_many\<close> of the empty list of companies, with pymongo's
  \<open>TypeError\<close>.  These exceptions are the invalid-argument condition of the run.
\<close>

theorem zero_companies_raises:
  "(\<exists>dbs. data_generator1 fake n_people 0 batch_size db1 = Inl (TypeError, dbs))
   \<and> (\<exists>dbs. data_generator2 fake n_people 0 batch_size db2 = Inl (ZeroDivisionError, dbs))
   \<and> (\<exists>dbs. data_generator3 fake n_people 0 batch_size db3 = Inl (ZeroDivisionError, dbs))"
  by (simp add: data_generator1_def data_generator2_def data_generator3_def
        load1_zero load2_zero load3_zero)

theorem zero_companies_raises_witness:
  "isl (data_generator1 demo 5 0 2000 empty_db)
   \<and> isl (data_generator2 demo 5 0 2000 empty_db)
   \<and> isl (data_generator3 demo 5 0 2000 empty_db)"
  using zero_companies_raises [of demo 5 2000 empty_db empty_db empty_db]
  by auto

text \<open>
  C10.  The exception of a run with \<open>n_companies = 0\<close> comes after
  \<^verbatim>\<open>drop_collection\<close> and \<^verbatim>\<open>create_collection\<close>: in the database the failed
  call leaves behind, the collection exists and is empty, no \<^verbatim>\<open>insert_many\<close> call
  was received and no \<^verbatim>\<open>_id\<close> was issued; when the collection held documents
  before the call, the database is not the one the call started from.
\<close>

theorem zero_companies_wipes_collection:
  "(\<exists>e dbs. data_generator1 fake n_people 0 batch_size db1 = Inl (e, dbs) \<and> wiped db1 dbs)
   \<and> (\<exists>e dbs. data_generator2 fake n_people 0 batch_size db2 = Inl (e, dbs) \<and> wiped db2 dbs)
   \<and> (\<exists>e dbs. data_generator3 fake n_people 0 batch_size db3 = Inl (e, dbs) \<and> wiped db3 dbs)"
  by (simp add: data_generator1_def data_generator2_def data_generator3_def
        load1_zero load2_zero load3_zero wiped_fresh)

theorem zero_companies_wipes_collection_witness:
  "find_all lab2_big_data (stale_db acme3) = [(0, acme3)]
   \<and> (\<exists>e dbs. data_generator3 demo 5 0 100 (stale_db acme3) = Inl (e, dbs)
          \<and> find_all lab2_big_data dbs = [] \<and> dbs \<noteq> stale_db acme3)"
  using zero_companies_wipes_collection [of demo 5 100 empty_db empty_db "stale_db acme3"]
  by (auto simp: wiped_def find_all_def stale_db_def)

end
